theory Spec2Isabelle
  imports Complex_Main "HOL-Library.Char_ord" "HOL-Library.List_Lexorder"
begin

section \<open>Python values\<close>

text \<open>
  The display program \<^verbatim>\<open>pov_display.py\<close> is modelled function by function.
  Python's unbounded integers are \<^typ>\<open>int\<close>. Python's floats are modelled by
  \<^typ>\<open>real\<close>, that is by exact arithmetic: rounding of IEEE doubles is not part of
  the model. A run can differ from the model where a double is compared with a bound it
  meets exactly, or truncated where the exact quotient is a whole number. Every exception
  the modelled code can raise is a value of \<open>error\<close>.
\<close>

datatype error = ZeroDivisionError | IndexError | OSError

definition ebind :: "error + 'a \<Rightarrow> ('a \<Rightarrow> error + 'b) \<Rightarrow> error + 'b" where
  "ebind m f = (case m of Inl e \<Rightarrow> Inl e | Inr x \<Rightarrow> f x)"

text \<open>\<^verbatim>\<open>int(x)\<close> on a float truncates toward zero.\<close>

definition py_int :: "real \<Rightarrow> int" where
  "py_int x = (if 0 \<le> x then \<lfloor>x\<rfloor> else \<lceil>x\<rceil>)"

text \<open>\<^verbatim>\<open>a / b\<close>, \<^verbatim>\<open>a // b\<close> and \<^verbatim>\<open>a % b\<close> raise on a zero divisor.\<close>

definition py_truediv :: "real \<Rightarrow> real \<Rightarrow> error + real" where
  "py_truediv a b = (if b = 0 then Inl ZeroDivisionError else Inr (a / b))"

definition py_floordiv :: "int \<Rightarrow> int \<Rightarrow> error + int" where
  "py_floordiv a b = (if b = 0 then Inl ZeroDivisionError else Inr (a div b))"

definition py_mod :: "int \<Rightarrow> int \<Rightarrow> error + int" where
  "py_mod a b = (if b = 0 then Inl ZeroDivisionError else Inr (a mod b))"

text \<open>
  List subscription \<^verbatim>\<open>xs[i]\<close>. Python accepts \<open>- len \<le> i < len\<close> and reads a negative
  \<open>i\<close> from the end of the list; any other subscript raises.
\<close>

definition py_index :: "'a list \<Rightarrow> int \<Rightarrow> error + 'a" where
  "py_index xs i =
     (if 0 \<le> i \<and> i < int (length xs) then Inr (xs ! nat i)
      else if i < 0 \<and> - int (length xs) \<le> i then Inr (xs ! nat (int (length xs) + i))
      else Inl IndexError)"

text \<open>\<^verbatim>\<open>range(a, b)\<close> over integers.\<close>

definition py_range :: "int \<Rightarrow> int \<Rightarrow> int list" where
  "py_range a b = [a..b - 1]"

text \<open>\<^verbatim>\<open>os.path.join(a, b)\<close> and \<^verbatim>\<open>s.endswith(suffix)\<close>.\<close>

definition endswith :: "string \<Rightarrow> string \<Rightarrow> bool" where
  "endswith s suffix = (length suffix \<le> length s \<and> drop (length s - length suffix) s = suffix)"

definition path_join :: "string \<Rightarrow> string \<Rightarrow> string" where
  "path_join a b =
     (if take 1 b = ''/'' then b
      else if a = [] \<or> endswith a ''/'' then a @ b
      else a @ ''/'' @ b)"

section \<open>Configuration\<close>

record config =
  NUM_LEDS :: int
  LED_IS_GRB :: bool
  NUM_DIVISIONS :: int
  BRIGHTNESS_RATIO :: real
  LINES_TO_SHIFT :: int
  DEFAULT_RPM :: int
  MIN_RPM :: int
  MAX_RPM :: int
  LED_UPDATE_TIME_US :: int
  TIMING_MARGIN_US :: int
  HALL_DEBOUNCE_US :: int
  MAX_RPM_CHANGE_PERCENT :: int
  RPM_HISTORY_SIZE :: int
  STATIC_IMAGES_PATH :: string
  GIF_COLORS_PATH :: string
  ROT_PER_FRAME :: int
  BUTTON_DEBOUNCE_TIME :: real

text \<open>The values of \<^verbatim>\<open>config.py\<close>.\<close>

definition config_py :: config where
  "config_py = \<lparr>
     NUM_LEDS = 72,
     LED_IS_GRB = True,
     NUM_DIVISIONS = 40,
     BRIGHTNESS_RATIO = 3 / 10,
     LINES_TO_SHIFT = - 15,
     DEFAULT_RPM = 500,
     MIN_RPM = 200,
     MAX_RPM = 1500,
     LED_UPDATE_TIME_US = 2800,
     TIMING_MARGIN_US = 300,
     HALL_DEBOUNCE_US = 5000,
     MAX_RPM_CHANGE_PERCENT = 40,
     RPM_HISTORY_SIZE = 15,
     STATIC_IMAGES_PATH = ''colors/douple_resolution/'',
     GIF_COLORS_PATH = ''gif_colors/'',
     ROT_PER_FRAME = 4,
     BUTTON_DEBOUNCE_TIME = 3 / 10 \<rparr>"

section \<open>Colours and the arrangement of a colour table\<close>

text \<open>
  \<open>Color\<close> stands for the LED library's constructor \<^verbatim>\<open>Color(a, b, c)\<close>, kept with its
  three arguments in call order. A source sample is an RGB triple of integers, a source
  table is \<^verbatim>\<open>[divisions][samples][3]\<close>.
\<close>

datatype color = Color int int int

type_synonym sample = "int \<times> int \<times> int"
type_synonym slices = "sample list list"
type_synonym table = "color list list"

definition make_color :: "config \<Rightarrow> real \<Rightarrow> real \<Rightarrow> real \<Rightarrow> color" where
  "make_color cfg r g b =
     (if LED_IS_GRB cfg then Color (py_int g) (py_int r) (py_int b)
      else Color (py_int r) (py_int g) (py_int b))"

definition num_leds_one_side :: "config \<Rightarrow> nat" where
  "num_leds_one_side cfg = nat (NUM_LEDS cfg div 2)"

text \<open>The colour built from one source sample (lines 259-263 and 271-275).\<close>

definition sample_color :: "config \<Rightarrow> sample \<Rightarrow> color" where
  "sample_color cfg color_arr =
     (case color_arr of (c0, c1, c2) \<Rightarrow>
        make_color cfg
          (real_of_int (py_int (real_of_int c0 * BRIGHTNESS_RATIO cfg)))
          (real_of_int (py_int (real_of_int c1 * BRIGHTNESS_RATIO cfg)))
          (real_of_int (py_int (real_of_int c2 * BRIGHTNESS_RATIO cfg))))"

text \<open>The first inner loop (lines 256-264): odd samples, written from the outer end.\<close>

definition first_half :: "config \<Rightarrow> sample list \<Rightarrow> color list \<Rightarrow> color list" where
  "first_half cfg row line_array =
     fold (\<lambda>i line.
             if i * 2 + 1 < length row
             then line[num_leds_one_side cfg - i - 1 := sample_color cfg (row ! (i * 2 + 1))]
             else line)
          [0..<num_leds_one_side cfg] line_array"

text \<open>The second inner loop (lines 268-276): even samples of the opposite line.\<close>

definition second_half :: "config \<Rightarrow> sample list \<Rightarrow> color list \<Rightarrow> color list" where
  "second_half cfg row line_array =
     fold (\<lambda>i line.
             if i * 2 < length row
             then line[num_leds_one_side cfg + i := sample_color cfg (row ! (i * 2))]
             else line)
          [0..<num_leds_one_side cfg] line_array"

definition arrange_colors_for_display :: "config \<Rightarrow> slices \<Rightarrow> table" where
  "arrange_colors_for_display cfg slices_colors =
     (let num_divs = length slices_colors in
      map (\<lambda>line_iter.
             let line_array = replicate (nat (NUM_LEDS cfg)) (make_color cfg 0 0 0);
                 opposite_line = (line_iter + num_divs div 2) mod num_divs
             in second_half cfg (slices_colors ! opposite_line)
                  (first_half cfg (slices_colors ! line_iter) line_array))
          [0..<num_divs])"

section \<open>Loading a table from storage\<close>

text \<open>
  The storage the program reads. \<open>np_load fs path\<close> is the content of the artifact at
  \<open>path\<close> as \<^verbatim>\<open>np.load(path).tolist()\<close> gives it, and \<open>None\<close> when the file is
  missing or cannot be read as a table \<^verbatim>\<open>[divisions][samples][3]\<close>: every exception
  inside the \<^verbatim>\<open>try\<close> block of \<^verbatim>\<open>load_npy_image\<close> ends in \<^verbatim>\<open>return None\<close>.
\<close>

record filesystem =
  np_load :: "string \<Rightarrow> slices option"
  path_exists :: "string \<Rightarrow> bool"
  listdir :: "string \<Rightarrow> error + string list"

definition load_npy_image :: "config \<Rightarrow> filesystem \<Rightarrow> string \<Rightarrow> table option" where
  "load_npy_image cfg fs npy_path =
     (case np_load fs npy_path of
        None \<Rightarrow> None
      | Some slices_colors \<Rightarrow> Some (arrange_colors_for_display cfg slices_colors))"

text \<open>Python's truth value of \<^verbatim>\<open>None\<close> or a list.\<close>

definition truthy :: "'a list option \<Rightarrow> bool" where
  "truthy v = (case v of None \<Rightarrow> False | Some xs \<Rightarrow> xs \<noteq> [])"

section \<open>Shape generation\<close>

text \<open>\<^verbatim>\<open>if 0 <= pos < NUM_LEDS: line[pos] = c\<close>\<close>

definition mark_led :: "config \<Rightarrow> int \<Rightarrow> color \<Rightarrow> color list \<Rightarrow> color list" where
  "mark_led cfg led_pos c line =
     (if 0 \<le> led_pos \<and> led_pos < NUM_LEDS cfg then line[nat led_pos := c] else line)"

definition generate_circle_data :: "config \<Rightarrow> int \<Rightarrow> int \<times> int \<times> int \<Rightarrow> table" where
  "generate_circle_data cfg radius_leds color_rgb =
     (case color_rgb of (r, g, b) \<Rightarrow>
        let center_led = NUM_LEDS cfg div 2;
            circle_thickness = max 2 (5 - NUM_DIVISIONS cfg div 30);
            pixel_color = make_color cfg (real_of_int r * BRIGHTNESS_RATIO cfg)
                            (real_of_int g * BRIGHTNESS_RATIO cfg)
                            (real_of_int b * BRIGHTNESS_RATIO cfg);
            off_color = make_color cfg 0 0 0
        in map (\<lambda>angle_idx.
                  let line = replicate (nat (NUM_LEDS cfg)) off_color in
                  if radius_leds < NUM_LEDS cfg div 2
                  then fold (\<lambda>offset line.
                               mark_led cfg (center_led + radius_leds + offset) pixel_color
                                 (mark_led cfg (center_led - radius_leds + offset) pixel_color line))
                            (py_range ((- circle_thickness) div 2) (circle_thickness div 2 + 1))
                            line
                  else line)
               [0..<nat (NUM_DIVISIONS cfg)])"

definition generate_square_data :: "config \<Rightarrow> int \<Rightarrow> int \<times> int \<times> int \<Rightarrow> table" where
  "generate_square_data cfg side_length_leds color_rgb =
     (case color_rgb of (r, g, b) \<Rightarrow>
        let center_led = NUM_LEDS cfg div 2;
            edge_thickness = max 2 (5 - NUM_DIVISIONS cfg div 30);
            half_side = side_length_leds div 2;
            pixel_color = make_color cfg (real_of_int r * BRIGHTNESS_RATIO cfg)
                            (real_of_int g * BRIGHTNESS_RATIO cfg)
                            (real_of_int b * BRIGHTNESS_RATIO cfg);
            off_color = make_color cfg 0 0 0
        in map (\<lambda>angle_idx.
                  let line = replicate (nat (NUM_LEDS cfg)) off_color;
                      angle_rad = real angle_idx * 2 * pi / real_of_int (NUM_DIVISIONS cfg);
                      cos_a = \<bar>cos angle_rad\<bar>;
                      sin_a = \<bar>sin angle_rad\<bar>;
                      max_trig = max (max cos_a sin_a) (1 / 1000);
                      distance = min (py_int (real_of_int half_side / max_trig)) (center_led - 2)
                  in fold (\<lambda>offset line.
                             mark_led cfg (center_led + distance + offset) pixel_color
                               (mark_led cfg (center_led - distance + offset) pixel_color line))
                          (py_range ((- edge_thickness) div 2) (edge_thickness div 2 + 1))
                          line)
               [0..<nat (NUM_DIVISIONS cfg)])"

section \<open>Program state\<close>

datatype mode = circle | square | static_image | gif_sequence

datatype button = BUTTON_CIRCLE | BUTTON_SQUARE | BUTTON_IMAGE

text \<open>
  The module's global variables. GPIO levels are booleans (\<open>True\<close> is \<^verbatim>\<open>GPIO.HIGH\<close>).
  \<open>strip_pixels\<close> is the LED strip's pixel buffer and \<open>strip_shown\<close> the frame last
  committed by \<^verbatim>\<open>strip.show()\<close>.
\<close>

record pov =
  current_mode :: mode
  static_images :: "string list"
  gif_sequences :: "string list"
  current_static_index :: int
  current_gif_index :: int
  current_frame_index :: int
  rot_per_frame :: int
  display_data :: table
  sequence_colors :: "table list"
  last_rotation_micros :: int
  rotation_time_micros :: int
  time_per_line_micros :: int
  current_line :: int
  rotation_active :: bool
  current_rpm :: real
  stable_rpm :: real
  rpm_history :: "real list"
  rotation_count :: int
  valid_rotation_count :: int
  noise_rejected_count :: int
  missed_lines_count :: int
  last_hall_state :: bool
  last_hall_trigger_time :: int
  last_button_states :: "button \<Rightarrow> bool"
  last_button_time :: "button \<Rightarrow> real"
  rotation_end_event :: bool
  strip_pixels :: "color list"
  strip_shown :: "color list"

text \<open>The globals as the module initialises them (lines 82-134).\<close>

definition initial_state :: "config \<Rightarrow> pov" where
  "initial_state cfg = \<lparr>
     current_mode = circle,
     static_images = [],
     gif_sequences = [],
     current_static_index = 0,
     current_gif_index = 0,
     current_frame_index = 0,
     rot_per_frame = ROT_PER_FRAME cfg,
     display_data = [],
     sequence_colors = [],
     last_rotation_micros = 0,
     rotation_time_micros = py_int (60000000 / real_of_int (DEFAULT_RPM cfg)),
     time_per_line_micros = py_int (60000000 / real_of_int (DEFAULT_RPM cfg)) div NUM_DIVISIONS cfg,
     current_line = 0,
     rotation_active = False,
     current_rpm = real_of_int (DEFAULT_RPM cfg),
     stable_rpm = real_of_int (DEFAULT_RPM cfg),
     rpm_history = [],
     rotation_count = 0,
     valid_rotation_count = 0,
     noise_rejected_count = 0,
     missed_lines_count = 0,
     last_hall_state = False,
     last_hall_trigger_time = 0,
     last_button_states = (\<lambda>b. True),
     last_button_time = (\<lambda>b. 0),
     rotation_end_event = False,
     strip_pixels = replicate (nat (NUM_LEDS cfg)) (Color 0 0 0),
     strip_shown = replicate (nat (NUM_LEDS cfg)) (Color 0 0 0) \<rparr>"

section \<open>Mode switching\<close>

text \<open>\<^verbatim>\<open>for i in range(n): strip.setPixelColor(i, line_data[i])\<close>, then \<^verbatim>\<open>strip.show()\<close>.\<close>

definition push_line :: "config \<Rightarrow> color list \<Rightarrow> pov \<Rightarrow> pov" where
  "push_line cfg line_data s =
     (let px = fold (\<lambda>i buf. buf[i := line_data ! i])
                 [0..<min (nat (NUM_LEDS cfg)) (length line_data)] (strip_pixels s)
      in s\<lparr>strip_pixels := px, strip_shown := px\<rparr>)"

definition show_static_preview :: "config \<Rightarrow> pov \<Rightarrow> pov" where
  "show_static_preview cfg s =
     (if display_data s = [] then s
      else let preview_line = length (display_data s) div 4 in
           if preview_line < length (display_data s)
           then push_line cfg (display_data s ! preview_line) s
           else s)"

definition flash_mode_change :: "config \<Rightarrow> pov \<Rightarrow> pov" where
  "flash_mode_change cfg s =
     show_static_preview cfg
       (push_line cfg (replicate (nat (NUM_LEDS cfg)) (make_color cfg 50 50 50)) s)"

definition set_mode_circle :: "config \<Rightarrow> pov \<Rightarrow> pov" where
  "set_mode_circle cfg s =
     flash_mode_change cfg
       (s\<lparr>current_mode := circle,
          display_data := generate_circle_data cfg 28 (0, 255, 255)\<rparr>)"

definition set_mode_square :: "config \<Rightarrow> pov \<Rightarrow> pov" where
  "set_mode_square cfg s =
     flash_mode_change cfg
       (s\<lparr>current_mode := square,
          display_data := generate_square_data cfg 24 (255, 0, 255)\<rparr>)"

definition set_mode_static_image :: "config \<Rightarrow> filesystem \<Rightarrow> pov \<Rightarrow> error + pov" where
  "set_mode_static_image cfg fs s =
     (if static_images s = [] then Inr s
      else
        ebind (py_index (static_images s) (current_static_index s)) (\<lambda>img_file.
          let img_path = path_join (STATIC_IMAGES_PATH cfg) img_file;
              loaded = load_npy_image cfg fs img_path
          in Inr (flash_mode_change cfg
                    (s\<lparr>current_mode := static_image,
                       display_data := (if truthy loaded then the loaded
                                        else generate_circle_data cfg 28 (0, 255, 255))\<rparr>))))"

text \<open>
  \<^verbatim>\<open>load_gif_sequence\<close> returns \<^verbatim>\<open>None\<close> or the list of frames, and updates the
  globals \<^verbatim>\<open>sequence_colors\<close> and \<^verbatim>\<open>current_frame_index\<close>.
\<close>

definition load_gif_sequence ::
  "config \<Rightarrow> filesystem \<Rightarrow> string \<Rightarrow> pov \<Rightarrow> error + (table list option \<times> pov)" where
  "load_gif_sequence cfg fs sequence_name s =
     (let sequence_path = path_join (GIF_COLORS_PATH cfg) sequence_name in
      if \<not> path_exists fs sequence_path then Inr (None, s)
      else
        ebind (listdir fs sequence_path) (\<lambda>names.
          let files = sort (filter (\<lambda>f. endswith f ''.npy'') names) in
          if files = [] then Inr (None, s)
          else
            let frames = concat (map (\<lambda>frame_file.
                           let frame_data = load_npy_image cfg fs (path_join sequence_path frame_file)
                           in if truthy frame_data then [the frame_data] else []) files)
            in Inr (Some frames, s\<lparr>sequence_colors := frames, current_frame_index := 0\<rparr>)))"

definition set_mode_gif_sequence :: "config \<Rightarrow> filesystem \<Rightarrow> pov \<Rightarrow> error + pov" where
  "set_mode_gif_sequence cfg fs s =
     (if gif_sequences s = [] then Inr s
      else
        ebind (py_index (gif_sequences s) (current_gif_index s)) (\<lambda>seq_name.
        ebind (load_gif_sequence cfg fs seq_name (s\<lparr>current_mode := gif_sequence\<rparr>)) (\<lambda>(loaded, s1).
          Inr (flash_mode_change cfg
                 (if truthy loaded
                  then s1\<lparr>display_data := sequence_colors s1 ! 0, current_frame_index := 0\<rparr>
                  else s1\<lparr>display_data := generate_circle_data cfg 28 (0, 255, 255)\<rparr>)))))"

definition circle_colors :: "(int \<times> int \<times> int) list" where
  "circle_colors = [(0, 255, 255), (255, 255, 0), (255, 0, 255), (0, 255, 0)]"

definition square_colors :: "(int \<times> int \<times> int) list" where
  "square_colors = [(255, 0, 255), (255, 255, 0), (0, 255, 255), (255, 128, 0)]"

definition cycle_content :: "config \<Rightarrow> filesystem \<Rightarrow> pov \<Rightarrow> error + pov" where
  "cycle_content cfg fs s =
     (if current_mode s = static_image \<and> static_images s \<noteq> [] then
        set_mode_static_image cfg fs
          (s\<lparr>current_static_index :=
               (current_static_index s + 1) mod int (length (static_images s))\<rparr>)
      else if current_mode s = gif_sequence \<and> gif_sequences s \<noteq> [] then
        set_mode_gif_sequence cfg fs
          (s\<lparr>current_gif_index :=
               (current_gif_index s + 1) mod int (length (gif_sequences s))\<rparr>)
      else if current_mode s = circle then
        Inr (flash_mode_change cfg
               (s\<lparr>display_data :=
                    generate_circle_data cfg 28
                      (circle_colors ! nat (rotation_count s mod int (length circle_colors)))\<rparr>))
      else if current_mode s = square then
        Inr (flash_mode_change cfg
               (s\<lparr>display_data :=
                    generate_square_data cfg 24
                      (square_colors ! nat (rotation_count s mod int (length square_colors)))\<rparr>))
      else Inr s)"

section \<open>Button handling\<close>

text \<open>
  One poll of the three buttons. \<open>levels\<close> gives what \<^verbatim>\<open>GPIO.input\<close> reads for each
  button and \<open>current_time\<close> what \<^verbatim>\<open>time.time()\<close> returns. \<open>button_pressed\<close> is the
  test shared by the three sections: a falling edge, outside the debounce time.
\<close>

definition button_pressed :: "button \<Rightarrow> bool \<Rightarrow> real \<Rightarrow> real \<Rightarrow> pov \<Rightarrow> bool" where
  "button_pressed b state current_time debounce s =
     (\<not> state \<and> last_button_states s b \<and> current_time - last_button_time s b > debounce)"

definition button_done :: "button \<Rightarrow> bool \<Rightarrow> bool \<Rightarrow> real \<Rightarrow> pov \<Rightarrow> pov" where
  "button_done b pressed state current_time s =
     s\<lparr>last_button_time := (if pressed then (last_button_time s)(b := current_time)
                             else last_button_time s),
       last_button_states := (last_button_states s)(b := state)\<rparr>"

definition check_buttons ::
  "config \<Rightarrow> filesystem \<Rightarrow> (button \<Rightarrow> bool) \<Rightarrow> real \<Rightarrow> pov \<Rightarrow> error + pov" where
  "check_buttons cfg fs levels current_time s =
     (let p1 = button_pressed BUTTON_CIRCLE (levels BUTTON_CIRCLE) current_time
                 (BUTTON_DEBOUNCE_TIME cfg) s in
      ebind (if p1 then (if current_mode s = circle then cycle_content cfg fs s
                         else Inr (set_mode_circle cfg s))
             else Inr s) (\<lambda>s1.
      let s1 = button_done BUTTON_CIRCLE p1 (levels BUTTON_CIRCLE) current_time s1;
          p2 = button_pressed BUTTON_SQUARE (levels BUTTON_SQUARE) current_time
                 (BUTTON_DEBOUNCE_TIME cfg) s1 in
      ebind (if p2 then (if current_mode s1 = square then cycle_content cfg fs s1
                         else Inr (set_mode_square cfg s1))
             else Inr s1) (\<lambda>s2.
      let s2 = button_done BUTTON_SQUARE p2 (levels BUTTON_SQUARE) current_time s2;
          p3 = button_pressed BUTTON_IMAGE (levels BUTTON_IMAGE) current_time
                 (BUTTON_DEBOUNCE_TIME cfg) s2 in
      ebind (if p3 then
               (if current_mode s2 = static_image then
                  (if static_images s2 \<noteq> [] \<and>
                      current_static_index s2 < int (length (static_images s2)) - 1
                   then cycle_content cfg fs s2
                   else set_mode_gif_sequence cfg fs s2)
                else if current_mode s2 = gif_sequence then
                  (if gif_sequences s2 \<noteq> [] \<and>
                      current_gif_index s2 < int (length (gif_sequences s2)) - 1
                   then cycle_content cfg fs s2
                   else set_mode_static_image cfg fs (s2\<lparr>current_static_index := 0\<rparr>))
                else set_mode_static_image cfg fs (s2\<lparr>current_static_index := 0\<rparr>))
             else Inr s2) (\<lambda>s3.
      Inr (button_done BUTTON_IMAGE p3 (levels BUTTON_IMAGE) current_time s3)))))"

section \<open>Hall sensor handling\<close>

text \<open>The bookkeeping of a reading rejected after the debounce test (lines 612-616, 628-632).\<close>

definition hall_reject :: "bool \<Rightarrow> int \<Rightarrow> pov \<Rightarrow> pov" where
  "hall_reject current_state current_time s =
     s\<lparr>noise_rejected_count := noise_rejected_count s + 1,
       last_hall_state := current_state,
       current_line := 0,
       rotation_count := rotation_count s + 1,
       last_rotation_micros := current_time\<rparr>"

text \<open>The smoothed RPM (lines 643-648); \<^verbatim>\<open>sorted_rpm[1:-1]\<close> is \<open>butlast (tl sorted_rpm)\<close>.\<close>

definition smooth_rpm :: "real list \<Rightarrow> real \<Rightarrow> error + real" where
  "smooth_rpm history instant_rpm =
     (if 5 \<le> length history then
        let sorted_rpm = sort history;
            trimmed = butlast (tl sorted_rpm)
        in if trimmed \<noteq> [] then py_truediv (sum_list trimmed) (real (length trimmed))
           else Inr instant_rpm
      else py_truediv (sum_list history) (real (length history)))"

text \<open>The end of the handler on a counted rotation (lines 664-678).\<close>

definition hall_finish :: "bool \<Rightarrow> int \<Rightarrow> pov \<Rightarrow> error + pov" where
  "hall_finish current_state current_time s =
     ebind (if current_mode s = gif_sequence \<and> sequence_colors s \<noteq> [] then
              ebind (py_mod (rotation_count s) (rot_per_frame s)) (\<lambda>m.
                if m = 0
                then Inr (s\<lparr>current_frame_index :=
                              (current_frame_index s + 1) mod int (length (sequence_colors s))\<rparr>)
                else Inr s)
            else Inr s) (\<lambda>s1.
     Inr (s1\<lparr>current_line := 0,
             rotation_active := True,
             rotation_count := rotation_count s1 + 1,
             last_rotation_micros := current_time,
             last_hall_state := current_state\<rparr>))"

text \<open>A valid reading: history, smoothed RPM and line time (lines 635-658).\<close>

definition hall_accept :: "config \<Rightarrow> bool \<Rightarrow> int \<Rightarrow> real \<Rightarrow> pov \<Rightarrow> error + pov" where
  "hall_accept cfg current_state current_time instant_rpm s =
     (let appended = rpm_history s @ [instant_rpm];
          history = (if int (length appended) > RPM_HISTORY_SIZE cfg then tl appended else appended)
      in
      ebind (smooth_rpm history instant_rpm) (\<lambda>stable.
      ebind (py_truediv 60000000 stable) (\<lambda>q.
      ebind (py_floordiv (py_int q) (NUM_DIVISIONS cfg)) (\<lambda>per_line.
      hall_finish current_state current_time
        (s\<lparr>rpm_history := history,
           valid_rotation_count := valid_rotation_count s + 1,
           stable_rpm := stable,
           current_rpm := stable,
           rotation_time_micros := py_int q,
           time_per_line_micros :=
             (if per_line < LED_UPDATE_TIME_US cfg then LED_UPDATE_TIME_US cfg else per_line)\<rparr>)))))"

text \<open>
  One call of \<^verbatim>\<open>check_hall_sensor\<close>: \<open>current_state\<close> is the level read from the sensor
  pin and \<open>current_time\<close> the value of \<^verbatim>\<open>get_time_micros()\<close> at the call.
\<close>

definition check_hall_sensor :: "config \<Rightarrow> bool \<Rightarrow> int \<Rightarrow> pov \<Rightarrow> error + pov" where
  "check_hall_sensor cfg current_state current_time s =
     (if current_state \<and> \<not> last_hall_state s then
        let time_since_last = current_time - last_hall_trigger_time s in
        if time_since_last < HALL_DEBOUNCE_US cfg then
          Inr (s\<lparr>last_hall_state := current_state,
                 noise_rejected_count := noise_rejected_count s + 1\<rparr>)
        else
          let s1 = s\<lparr>last_hall_trigger_time := current_time, rotation_end_event := True\<rparr> in
          if last_rotation_micros s1 > 0 then
            let measured_rotation_time = current_time - last_rotation_micros s1 in
            ebind (py_truediv 60000000 (real_of_int (MAX_RPM cfg))) (\<lambda>qmax.
            ebind (py_truediv 60000000 (real_of_int (MIN_RPM cfg))) (\<lambda>qmin.
            let min_rotation_time = py_int qmax;
                max_rotation_time = py_int qmin
            in
            if \<not> (min_rotation_time \<le> measured_rotation_time \<and>
                    measured_rotation_time \<le> max_rotation_time)
            then Inr (hall_reject current_state current_time s1)
            else
              ebind (py_truediv 60000000 (real_of_int measured_rotation_time)) (\<lambda>instant_rpm.
              if 3 \<le> length (rpm_history s1) then
                ebind (py_truediv (sum_list (rpm_history s1))
                         (real (length (rpm_history s1)))) (\<lambda>avg_rpm.
                ebind (py_truediv \<bar>instant_rpm - avg_rpm\<bar> avg_rpm) (\<lambda>q.
                let rpm_change_percent = q * 100 in
                if rpm_change_percent > real_of_int (MAX_RPM_CHANGE_PERCENT cfg)
                then Inr (hall_reject current_state current_time s1)
                else hall_accept cfg current_state current_time instant_rpm s1))
              else hall_accept cfg current_state current_time instant_rpm s1)))
          else hall_finish current_state current_time s1
      else Inr (s\<lparr>last_hall_state := current_state\<rparr>))"

text \<open>
  The main loop's successive calls of \<^verbatim>\<open>check_hall_sensor\<close>, each with the level and the
  clock value it reads; the first exception ends the run.
\<close>

fun hall_polls :: "config \<Rightarrow> (bool \<times> int) list \<Rightarrow> pov \<Rightarrow> error + pov" where
  "hall_polls cfg [] s = Inr s"
| "hall_polls cfg ((current_state, current_time) # polls) s =
     ebind (check_hall_sensor cfg current_state current_time s) (hall_polls cfg polls)"

section \<open>Clock and waits\<close>

text \<open>
  The clock is the list of the readings the program will get, in order. A tick is the
  value of \<^verbatim>\<open>time.perf_counter() * 1_000_000\<close> at one reading, and a flag telling whether
  \<^verbatim>\<open>rotation_end_event\<close> has been set from outside the polling thread since the reading
  before. \<^verbatim>\<open>pov_display.py\<close> registers no callback and starts no thread: the flag is set
  by \<^verbatim>\<open>check_hall_sensor\<close> alone (line 601), between two calls of
  \<^verbatim>\<open>display_current_line\<close>, so in a run of the program every flag is \<open>False\<close>. A
  wait that finds no reading left has not returned: the result is \<open>None\<close>.
\<close>

type_synonym tick = "real \<times> bool"

definition observe :: "bool \<Rightarrow> pov \<Rightarrow> pov" where
  "observe p s = s\<lparr>rotation_end_event := (rotation_end_event s \<or> p)\<rparr>"

definition get_time_micros :: "tick list \<Rightarrow> pov \<Rightarrow> (int \<times> tick list \<times> pov) option" where
  "get_time_micros ticks s =
     (case ticks of [] \<Rightarrow> None | (t, p) # rest \<Rightarrow> Some (py_int t, rest, observe p s))"

text \<open>\<^verbatim>\<open>precise_micros_delay\<close> (lines 179-184): the loop, then the function.\<close>

fun delay_loop :: "real \<Rightarrow> real \<Rightarrow> tick list \<Rightarrow> pov \<Rightarrow> (tick list \<times> pov) option" where
  "delay_loop start micros_to_delay [] s = None"
| "delay_loop start micros_to_delay ((t, p) # rest) s =
     (if t - start < micros_to_delay
      then (if rotation_end_event (observe p s) then Some (rest, observe p s)
            else delay_loop start micros_to_delay rest (observe p s))
      else Some (rest, observe p s))"

definition precise_micros_delay :: "real \<Rightarrow> tick list \<Rightarrow> pov \<Rightarrow> (tick list \<times> pov) option" where
  "precise_micros_delay micros_to_delay ticks s =
     (case ticks of [] \<Rightarrow> None
      | (start, p) # rest \<Rightarrow> delay_loop start micros_to_delay rest (observe p s))"

text \<open>The wait of \<^verbatim>\<open>display_current_line\<close> (lines 720-721).\<close>

fun wait_until :: "int \<Rightarrow> tick list \<Rightarrow> pov \<Rightarrow> (tick list \<times> pov) option" where
  "wait_until target_time [] s = None"
| "wait_until target_time ((t, p) # rest) s =
     (if py_int t < target_time then wait_until target_time rest (observe p s)
      else Some (rest, observe p s))"

section \<open>Display of the current line\<close>

text \<open>The frame shown (lines 695-697).\<close>

definition current_frame :: "pov \<Rightarrow> error + table" where
  "current_frame s =
     (if current_mode s = gif_sequence \<and> sequence_colors s \<noteq> []
      then py_index (sequence_colors s) (current_frame_index s)
      else Inr (display_data s))"

text \<open>
  Lines 717-727, after the two clock readings around the update. The divisor
  \<^verbatim>\<open>time_per_line_micros\<close> is positive here, by the test at the function's entry.
\<close>

definition wait_or_skip :: "config \<Rightarrow> int \<Rightarrow> tick list \<Rightarrow> pov \<Rightarrow> (tick list \<times> pov) option" where
  "wait_or_skip cfg remaining ticks s =
     (if remaining > 0 then
        (case get_time_micros ticks s of
           None \<Rightarrow> None
         | Some (now, ticks1, s1) \<Rightarrow> wait_until (now + remaining) ticks1 s1)
      else if remaining < - 1000 then
        let lines_to_skip =
              py_int (real_of_int (- remaining) / real_of_int (time_per_line_micros s))
        in if lines_to_skip > 0
           then Some (ticks, s\<lparr>current_line := current_line s + lines_to_skip,
                               missed_lines_count := missed_lines_count s + lines_to_skip\<rparr>)
           else Some (ticks, s)
      else Some (ticks, s))"

text \<open>Lines 730-732.\<close>

definition advance_line :: "int \<Rightarrow> pov \<Rightarrow> pov" where
  "advance_line num_divs s =
     (if current_line s + 1 \<ge> num_divs then s\<lparr>current_line := 0\<rparr>
      else s\<lparr>current_line := current_line s + 1\<rparr>)"

definition display_current_line ::
  "config \<Rightarrow> tick list \<Rightarrow> pov \<Rightarrow> (error + pov \<times> tick list) option" where
  "display_current_line cfg ticks s =
     (if \<not> rotation_active s \<or> time_per_line_micros s \<le> 0 then Some (Inr (s, ticks))
      else
        let s1 = (if rotation_end_event s
                  then s\<lparr>rotation_end_event := False, current_line := 0\<rparr> else s)
        in
        case current_frame s1 of
          Inl e \<Rightarrow> Some (Inl e)
        | Inr frame_data \<Rightarrow>
            let num_divs = (if frame_data \<noteq> [] then int (length frame_data)
                            else NUM_DIVISIONS cfg)
            in
            (case py_mod (current_line s1 + LINES_TO_SHIFT cfg + num_divs * 2) num_divs of
               Inl e \<Rightarrow> Some (Inl e)
             | Inr line_to_show \<Rightarrow>
                 (case get_time_micros ticks s1 of
                    None \<Rightarrow> None
                  | Some (line_start_time, ticks1, s2) \<Rightarrow>
                      let s3 = (if frame_data \<noteq> [] \<and> line_to_show < int (length frame_data)
                                then push_line cfg (frame_data ! nat line_to_show) s2
                                else s2)
                      in
                      (case get_time_micros ticks1 s3 of
                         None \<Rightarrow> None
                       | Some (pushed_time, ticks2, s4) \<Rightarrow>
                           let update_time = pushed_time - line_start_time;
                               remaining = time_per_line_micros s4 - update_time
                                             - TIMING_MARGIN_US cfg
                           in
                           (case wait_or_skip cfg remaining ticks2 s4 of
                              None \<Rightarrow> None
                            | Some (ticks3, s5) \<Rightarrow>
                                Some (Inr (advance_line num_divs s5, ticks3)))))))"

section \<open>Notions of the specification\<close>

definition plain_mean :: "real list \<Rightarrow> real" where
  "plain_mean xs = sum_list xs / real (length xs)"

definition trimmed_mean :: "real list \<Rightarrow> real" where
  "trimmed_mean xs = plain_mean (remove1 (Max (set xs)) (remove1 (Min (set xs)) xs))"

definition fifo_push :: "int \<Rightarrow> real list \<Rightarrow> real \<Rightarrow> real list" where
  "fifo_push n h x = (if int (length (h @ [x])) > n then tl (h @ [x]) else h @ [x])"

definition debounce_violation :: "config \<Rightarrow> int \<Rightarrow> pov \<Rightarrow> bool" where
  "debounce_violation cfg t s = (t - last_hall_trigger_time s < HALL_DEBOUNCE_US cfg)"

definition period_in_range :: "config \<Rightarrow> int \<Rightarrow> pov \<Rightarrow> bool" where
  "period_in_range cfg t s =
     (py_int (60000000 / real_of_int (MAX_RPM cfg)) \<le> t - last_rotation_micros s \<and>
      t - last_rotation_micros s \<le> py_int (60000000 / real_of_int (MIN_RPM cfg)))"





text \<open>A state of the running display: one rotation counted at 1000000 us, line 5 shown.\<close>

definition spinning_state :: pov where
  "spinning_state = (initial_state config_py)
     \<lparr>current_line := 5, last_hall_trigger_time := 1000000,
      last_rotation_micros := 1000000, rotation_active := True, rotation_count := 1\<rparr>"

definition per_slice_spec :: "config \<Rightarrow> real \<Rightarrow> real" where
  "per_slice_spec cfg rpm =
     max (60000000 / rpm / real_of_int (NUM_DIVISIONS cfg)) (real_of_int (LED_UPDATE_TIME_US cfg))"

definition four_samples_state :: pov where
  "four_samples_state = spinning_state\<lparr>rpm_history := [500, 500, 500, 500]\<rparr>"

definition config_ok :: "config \<Rightarrow> bool" where
  "config_ok cfg =
     (0 < MIN_RPM cfg \<and> MIN_RPM cfg \<le> MAX_RPM cfg \<and> MAX_RPM cfg dvd 60000000 \<and>
      NUM_DIVISIONS cfg \<noteq> 0 \<and> 1 \<le> RPM_HISTORY_SIZE cfg)"

definition tracker_inv :: "config \<Rightarrow> pov \<Rightarrow> bool" where
  "tracker_inv cfg s =
     ((\<forall>r\<in>set (rpm_history s). real_of_int (MIN_RPM cfg) \<le> r \<and> r \<le> real_of_int (MAX_RPM cfg)) \<and>
      int (length (rpm_history s)) \<le> RPM_HISTORY_SIZE cfg \<and>
      (rpm_history s \<noteq> [] \<longrightarrow>
         real_of_int (MIN_RPM cfg) \<le> stable_rpm s \<and> stable_rpm s \<le> real_of_int (MAX_RPM cfg) \<and>
         0 < stable_rpm s) \<and>
      rot_per_frame s \<noteq> 0)"

text \<open>
  The value the specification gives to a strip position: each channel of the sample scaled
  by the brightness ratio and floored to an integer, in the channel order of the strip.
\<close>

definition floored_sample :: "config \<Rightarrow> sample \<Rightarrow> color" where
  "floored_sample cfg smp =
     (case smp of (r, g, b) \<Rightarrow>
        let r' = \<lfloor>real_of_int r * BRIGHTNESS_RATIO cfg\<rfloor>;
            g' = \<lfloor>real_of_int g * BRIGHTNESS_RATIO cfg\<rfloor>;
            b' = \<lfloor>real_of_int b * BRIGHTNESS_RATIO cfg\<rfloor>
        in if LED_IS_GRB cfg then Color g' r' b' else Color r' g' b')"

definition unsigned_sample :: "sample \<Rightarrow> bool" where
  "unsigned_sample smp = (case smp of (r, g, b) \<Rightarrow> 0 \<le> r \<and> 0 \<le> g \<and> 0 \<le> b)"

text \<open>A synthetic table: the sample at index \<open>k\<close> of division \<open>d\<close> is \<open>(d, k, 0)\<close>.\<close>

definition synthetic_table :: "nat \<Rightarrow> nat \<Rightarrow> slices" where
  "synthetic_table divisions samples =
     map (\<lambda>d. map (\<lambda>k. (int d, int k, 0)) [0..<samples]) [0..<divisions]"

definition synthetic_config :: config where
  "synthetic_config = config_py\<lparr>NUM_LEDS := 4, BRIGHTNESS_RATIO := 1\<rparr>"

text \<open>A storage with no readable artifact.\<close>

definition no_files :: filesystem where
  "no_files = \<lparr>np_load = (\<lambda>p. None), path_exists = (\<lambda>p. False),
               listdir = (\<lambda>p. Inl OSError)\<rparr>"


text \<open>The program after start-up: \<^verbatim>\<open>main\<close> has called \<^verbatim>\<open>set_mode_circle\<close>.\<close>

definition startup_state :: pov where
  "startup_state = set_mode_circle config_py (initial_state config_py)"

text \<open>The circle button held down, the other two released.\<close>

definition circle_button_down :: "button \<Rightarrow> bool" where
  "circle_button_down b = (b \<noteq> BUTTON_CIRCLE)"

text \<open>The number of divisions \<^verbatim>\<open>num_divs\<close> of the frame being shown (line 700).\<close>

definition slice_count :: "config \<Rightarrow> pov \<Rightarrow> int" where
  "slice_count cfg s =
     (case current_frame s of
        Inl e \<Rightarrow> 0
      | Inr frame_data \<Rightarrow>
          if frame_data \<noteq> [] then int (length frame_data) else NUM_DIVISIONS cfg)"

text \<open>
  \<^verbatim>\<open>remaining\<close> (line 715) from the clock readings \<open>t0\<close> before and \<open>t1\<close> after the update.
\<close>

definition remaining_time :: "config \<Rightarrow> pov \<Rightarrow> real \<Rightarrow> real \<Rightarrow> int" where
  "remaining_time cfg s t0 t1 =
     time_per_line_micros s - (py_int t1 - py_int t0) - TIMING_MARGIN_US cfg"

text \<open>The line index after the test of the resynchronisation flag (lines 690-692).\<close>

definition resync_line :: "pov \<Rightarrow> int" where
  "resync_line s = (if rotation_end_event s then 0 else current_line s)"

text \<open>The display running after start-up, at line \<open>l\<close>, with a line time of 3000 us.\<close>

definition running_state :: "int \<Rightarrow> pov" where
  "running_state l = startup_state\<lparr>rotation_active := True, current_line := l\<rparr>"

text \<open>What one call of \<^verbatim>\<open>display_current_line\<close> leaves behind.\<close>

definition line_after :: "(error + pov \<times> tick list) option \<Rightarrow> int option" where
  "line_after r = (case r of Some (Inr (s, ticks)) \<Rightarrow> Some (current_line s) | _ \<Rightarrow> None)"

definition missed_after :: "(error + pov \<times> tick list) option \<Rightarrow> int option" where
  "missed_after r = (case r of Some (Inr (s, ticks)) \<Rightarrow> Some (missed_lines_count s) | _ \<Rightarrow> None)"

section \<open>Properties\<close>

subsection \<open>The pulse handler\<close>

lemma py_int_floor: "0 \<le> x \<Longrightarrow> py_int x = \<lfloor>x\<rfloor>"
  by (simp add: py_int_def)

lemma py_int_of_int: "py_int (real_of_int n) = n"
  by (simp add: py_int_def)

lemma ebind_eq_Inr: "ebind m f = Inr y \<longleftrightarrow> (\<exists>x. m = Inr x \<and> f x = Inr y)"
  by (cases m) (simp_all add: ebind_def)

lemma hall_finish_fields:
  assumes "hall_finish cs t s = Inr s'"
  shows "rpm_history s' = rpm_history s \<and> stable_rpm s' = stable_rpm s
    \<and> valid_rotation_count s' = valid_rotation_count s
    \<and> noise_rejected_count s' = noise_rejected_count s
    \<and> time_per_line_micros s' = time_per_line_micros s
    \<and> rot_per_frame s' = rot_per_frame s
    \<and> current_line s' = 0"
  using assms
  by (auto simp: hall_finish_def ebind_eq_Inr py_mod_def split: if_splits)

lemma hall_finish_total:
  assumes "rot_per_frame s \<noteq> 0"
  shows "\<exists>s'. hall_finish cs t s = Inr s'"
  using assms by (simp add: hall_finish_def ebind_def py_mod_def)

lemma sorted_hd_Min: "sorted ys \<Longrightarrow> ys \<noteq> [] \<Longrightarrow> hd ys = Min (set ys)"
  by (cases ys) (auto simp: Min_insert2)

lemma sorted_last_Max: "sorted ys \<Longrightarrow> ys \<noteq> [] \<Longrightarrow> last ys = Max (set ys)"
proof (induction ys)
  case Nil
  then show ?case by simp
next
  case (Cons y zs)
  show ?case
  proof (cases "zs = []")
    case True
    then show ?thesis by simp
  next
    case False
    with Cons have "last zs = Max (set zs)" by simp
    moreover have "y \<le> Max (set zs)"
      using Cons.prems False by (metis List.finite_set Max_ge last_in_set calculation sorted_simps(2))
    ultimately show ?thesis using False by (simp add: max_def)
  qed
qed

lemma sum_list_trim:
  fixes ys :: "real list"
  assumes "2 \<le> length ys"
  shows "sum_list (butlast (tl ys)) = sum_list ys - hd ys - last ys" (is "?l = ?r")
proof -
  obtain y zs where ys: "ys = y # zs" using assms by (cases ys) auto
  then have "zs \<noteq> []" using assms by auto
  then have "zs = butlast zs @ [last zs]" by simp
  then have "sum_list zs = sum_list (butlast zs) + last zs"
    by (metis sum_list.Cons sum_list.Nil sum_list_append add.right_neutral)
  then show ?thesis using ys \<open>zs \<noteq> []\<close> by (simp add: ys)
qed

lemma Max_in_remove1_Min:
  fixes xs :: "real list"
  assumes "2 \<le> length xs"
  shows "Max (set xs) \<in> set (remove1 (Min (set xs)) xs)"
proof (cases "Max (set xs) = Min (set xs)")
  case False
  have "xs \<noteq> []" using assms by auto
  then have "Max (set xs) \<in> set xs" by simp
  with False show ?thesis by (simp add: in_set_remove1)
next
  case True
  have ne: "xs \<noteq> []" using assms by auto
  have all: "x = Min (set xs)" if "x \<in> set xs" for x
  proof -
    have "Min (set xs) \<le> x" "x \<le> Max (set xs)" using that by simp_all
    with True show ?thesis by simp
  qed
  have "length (remove1 (Min (set xs)) xs) = length xs - 1"
    using ne by (simp add: length_remove1)
  then have "remove1 (Min (set xs)) xs \<noteq> []" using assms by auto
  then obtain z where z: "z \<in> set (remove1 (Min (set xs)) xs)"
    by (meson last_in_set)
  then have "z \<in> set xs" by (meson notin_set_remove1)
  then have "z = Max (set xs)" using all True by simp
  with z show ?thesis by simp
qed

lemma sum_list_remove1_real:
  fixes xs :: "real list"
  shows "x \<in> set xs \<Longrightarrow> sum_list (remove1 x xs) = sum_list xs - x"
  by (induction xs) auto

lemma sum_list_insort_real:
  fixes xs :: "real list"
  shows "sum_list (insort x xs) = x + sum_list xs"
  by (induction xs) auto

lemma sum_list_sort_real:
  fixes xs :: "real list"
  shows "sum_list (sort xs) = sum_list xs"
  by (induction xs) (auto simp: sum_list_insort_real)

lemma trimmed_mean_sort:
  fixes xs :: "real list"
  assumes "2 \<le> length xs"
  shows "sum_list (butlast (tl (sort xs))) / real (length (butlast (tl (sort xs))))
           = trimmed_mean xs"
proof -
  have ne: "xs \<noteq> []" using assms by auto
  have sne: "sort xs \<noteq> []" using ne by (cases xs) simp_all
  have s1: "sum_list (butlast (tl (sort xs))) = sum_list xs - Min (set xs) - Max (set xs)"
  proof -
    have "sum_list (butlast (tl (sort xs))) = sum_list (sort xs) - hd (sort xs) - last (sort xs)"
      using assms by (intro sum_list_trim) simp
    moreover have "sum_list (sort xs) = sum_list xs"
      by (rule sum_list_sort_real)
    moreover have "hd (sort xs) = Min (set xs)"
      using sorted_hd_Min[of "sort xs"] sne by simp
    moreover have "last (sort xs) = Max (set xs)"
      using sorted_last_Max[of "sort xs"] sne by simp
    ultimately show ?thesis by simp
  qed
  have mn: "Min (set xs) \<in> set xs" using ne by simp
  have s2: "sum_list (remove1 (Max (set xs)) (remove1 (Min (set xs)) xs))
              = sum_list xs - Min (set xs) - Max (set xs)"
    using Max_in_remove1_Min[OF assms] mn by (simp add: sum_list_remove1_real)
  have l1: "length (butlast (tl (sort xs))) = length xs - 2" by simp
  have l2: "length (remove1 (Max (set xs)) (remove1 (Min (set xs)) xs)) = length xs - 2"
    using Max_in_remove1_Min[OF assms] mn by (simp add: length_remove1)
  show ?thesis unfolding trimmed_mean_def plain_mean_def s1 s2 l1 l2 ..
qed

lemma smooth_rpm_spec:
  assumes "smooth_rpm h i = Inr m"
  shows "m = (if 5 \<le> length h then trimmed_mean h else plain_mean h)"
proof (cases "5 \<le> length h")
  case True
  have "length (butlast (tl (sort h))) = length h - 2" by simp
  with True have "length (butlast (tl (sort h))) \<noteq> 0" by simp
  then have "butlast (tl (sort h)) \<noteq> []" by (simp del: length_butlast length_tl)
  with True assms have "m = sum_list (butlast (tl (sort h))) / real (length (butlast (tl (sort h))))"
    by (auto simp: smooth_rpm_def Let_def py_truediv_def split: if_splits)
  with True show ?thesis using trimmed_mean_sort[of h] by simp
next
  case False
  with assms show ?thesis
    by (auto simp: smooth_rpm_def plain_mean_def py_truediv_def split: if_splits)
qed

lemma sum_list_bounds:
  fixes xs :: "real list"
  assumes "\<forall>x\<in>set xs. a \<le> x \<and> x \<le> b"
  shows "real (length xs) * a \<le> sum_list xs \<and> sum_list xs \<le> real (length xs) * b"
  using assms by (induction xs) (auto simp: algebra_simps)

lemma mean_bounds:
  fixes xs :: "real list"
  assumes "xs \<noteq> []" and "\<forall>x\<in>set xs. a \<le> x \<and> x \<le> b"
  shows "a \<le> sum_list xs / real (length xs) \<and> sum_list xs / real (length xs) \<le> b"
proof -
  have pos: "0 < real (length xs)" using assms(1) by simp
  from sum_list_bounds[OF assms(2)] pos show ?thesis
    by (simp add: pos_le_divide_eq pos_divide_le_eq mult.commute)
qed

lemma smooth_rpm_bounds:
  assumes "h \<noteq> []" and "\<forall>x\<in>set h. a \<le> x \<and> x \<le> b"
  shows "\<exists>m. smooth_rpm h i = Inr m \<and> a \<le> m \<and> m \<le> b"
proof (cases "5 \<le> length h")
  case True
  let ?t = "butlast (tl (sort h))"
  have "length ?t = length h - 2" by simp
  with True have "length ?t \<noteq> 0" by simp
  then have ne: "?t \<noteq> []" by (simp del: length_butlast length_tl)
  have sub: "\<forall>x\<in>set ?t. a \<le> x \<and> x \<le> b"
  proof
    fix x assume "x \<in> set ?t"
    then have "x \<in> set (tl (sort h))" by (rule in_set_butlastD)
    then have "x \<in> set (sort h)" by (cases "sort h") auto
    then show "a \<le> x \<and> x \<le> b" using assms(2) by simp
  qed
  have eq: "smooth_rpm h i = Inr (sum_list ?t / real (length ?t))"
    using True ne by (simp add: smooth_rpm_def Let_def py_truediv_def del: length_butlast length_tl)
  show ?thesis using mean_bounds[OF ne sub] eq by simp
next
  case False
  then have "smooth_rpm h i = Inr (sum_list h / real (length h))"
    using assms(1) by (simp add: smooth_rpm_def py_truediv_def)
  then show ?thesis using mean_bounds[OF assms] by simp
qed

lemma hall_accept_unfold:
  "hall_accept cfg cs t i s =
     ebind (smooth_rpm (fifo_push (RPM_HISTORY_SIZE cfg) (rpm_history s) i) i) (\<lambda>stable.
     ebind (py_truediv 60000000 stable) (\<lambda>q.
     ebind (py_floordiv (py_int q) (NUM_DIVISIONS cfg)) (\<lambda>per_line.
     hall_finish cs t
       (s\<lparr>rpm_history := fifo_push (RPM_HISTORY_SIZE cfg) (rpm_history s) i,
          valid_rotation_count := valid_rotation_count s + 1,
          stable_rpm := stable,
          current_rpm := stable,
          rotation_time_micros := py_int q,
          time_per_line_micros :=
            (if per_line < LED_UPDATE_TIME_US cfg then LED_UPDATE_TIME_US cfg else per_line)\<rparr>))))"
  by (simp add: hall_accept_def fifo_push_def Let_def)

lemma hall_accept_fields:
  assumes "hall_accept cfg cs t i s = Inr s'"
  shows "smooth_rpm (fifo_push (RPM_HISTORY_SIZE cfg) (rpm_history s) i) i = Inr (stable_rpm s')
    \<and> rpm_history s' = fifo_push (RPM_HISTORY_SIZE cfg) (rpm_history s) i
    \<and> time_per_line_micros s' =
         max (py_int (60000000 / stable_rpm s') div NUM_DIVISIONS cfg) (LED_UPDATE_TIME_US cfg)
    \<and> valid_rotation_count s' = valid_rotation_count s + 1
    \<and> noise_rejected_count s' = noise_rejected_count s
    \<and> rot_per_frame s' = rot_per_frame s
    \<and> current_line s' = 0"
proof -
  from assms obtain m q p where
    m: "smooth_rpm (fifo_push (RPM_HISTORY_SIZE cfg) (rpm_history s) i) i = Inr m" and
    q: "py_truediv 60000000 m = Inr q" and
    p: "py_floordiv (py_int q) (NUM_DIVISIONS cfg) = Inr p" and
    f: "hall_finish cs t
          (s\<lparr>rpm_history := fifo_push (RPM_HISTORY_SIZE cfg) (rpm_history s) i,
             valid_rotation_count := valid_rotation_count s + 1,
             stable_rpm := m, current_rpm := m, rotation_time_micros := py_int q,
             time_per_line_micros :=
               (if p < LED_UPDATE_TIME_US cfg then LED_UPDATE_TIME_US cfg else p)\<rparr>) = Inr s'"
    unfolding hall_accept_unfold ebind_eq_Inr by blast
  have qv: "q = 60000000 / m" using q by (simp add: py_truediv_def split: if_splits)
  have pv: "p = py_int q div NUM_DIVISIONS cfg" using p by (simp add: py_floordiv_def split: if_splits)
  from hall_finish_fields[OF f] m qv pv show ?thesis by (simp add: max_def)
qed

lemma hall_accept_total:
  assumes "fifo_push (RPM_HISTORY_SIZE cfg) (rpm_history s) i \<noteq> []"
    and "\<forall>x\<in>set (fifo_push (RPM_HISTORY_SIZE cfg) (rpm_history s) i). a \<le> x \<and> x \<le> b"
    and "0 < a" and "NUM_DIVISIONS cfg \<noteq> 0" and "rot_per_frame s \<noteq> 0"
  shows "\<exists>s'. hall_accept cfg cs t i s = Inr s'"
proof -
  from smooth_rpm_bounds[OF assms(1,2)] obtain m where
    m: "smooth_rpm (fifo_push (RPM_HISTORY_SIZE cfg) (rpm_history s) i) i = Inr m" and "a \<le> m"
    by blast
  then have m0: "m \<noteq> 0" using assms(3) by simp
  show ?thesis
    unfolding hall_accept_unfold
    using m m0 assms(4,5)
    by (simp add: ebind_def py_truediv_def py_floordiv_def hall_finish_total)
qed

lemma check_hall_measured:
  assumes "\<not> last_hall_state s" and "\<not> debounce_violation cfg t s"
    and "0 < last_rotation_micros s" and "MAX_RPM cfg \<noteq> 0" and "MIN_RPM cfg \<noteq> 0"
  shows "check_hall_sensor cfg True t s =
     (if \<not> period_in_range cfg t s
      then Inr (hall_reject True t (s\<lparr>last_hall_trigger_time := t, rotation_end_event := True\<rparr>))
      else
        ebind (py_truediv 60000000 (real_of_int (t - last_rotation_micros s))) (\<lambda>instant_rpm.
        if 3 \<le> length (rpm_history s) then
          ebind (py_truediv (sum_list (rpm_history s)) (real (length (rpm_history s)))) (\<lambda>avg_rpm.
          ebind (py_truediv \<bar>instant_rpm - avg_rpm\<bar> avg_rpm) (\<lambda>q.
          if q * 100 > real_of_int (MAX_RPM_CHANGE_PERCENT cfg)
          then Inr (hall_reject True t (s\<lparr>last_hall_trigger_time := t, rotation_end_event := True\<rparr>))
          else hall_accept cfg True t instant_rpm
                 (s\<lparr>last_hall_trigger_time := t, rotation_end_event := True\<rparr>)))
        else hall_accept cfg True t instant_rpm
               (s\<lparr>last_hall_trigger_time := t, rotation_end_event := True\<rparr>)))"
  using assms
  by (simp add: check_hall_sensor_def debounce_violation_def period_in_range_def Let_def
      ebind_def py_truediv_def)




lemma check_hall_accept_path:
  assumes "check_hall_sensor cfg cs t s = Inr s'"
    and "valid_rotation_count s' \<noteq> valid_rotation_count s"
  shows "\<exists>i. hall_accept cfg cs t i
               (s\<lparr>last_hall_trigger_time := t, rotation_end_event := True\<rparr>) = Inr s'"
  using assms
  by (auto simp: check_hall_sensor_def Let_def ebind_eq_Inr hall_reject_def
      split: if_splits dest: hall_finish_fields)

text \<open>
  Claim C5. After an accepted reading (the valid counter has moved) the smoothed RPM is the
  trimmed mean of the history when it holds at least 5 samples, one smallest and one
  largest value dropped, and the plain mean otherwise. For the history
  \<open>[100, 100, 100, 100, 200]\<close> the smoothed RPM is 100.
\<close>

theorem smoothed_rpm_trimmed_mean:
  assumes "check_hall_sensor cfg cs t s = Inr s'"
    and "valid_rotation_count s' \<noteq> valid_rotation_count s"
  shows "stable_rpm s' = (if 5 \<le> length (rpm_history s') then trimmed_mean (rpm_history s')
                          else plain_mean (rpm_history s'))
    \<and> trimmed_mean [100, 100, 100, 100, 200] = 100
    \<and> smooth_rpm [100, 100, 100, 100, 200] x = Inr 100"
proof -
  from check_hall_accept_path[OF assms] obtain i where
    a: "hall_accept cfg cs t i
          (s\<lparr>last_hall_trigger_time := t, rotation_end_event := True\<rparr>) = Inr s'" by blast
  from hall_accept_fields[OF a] have
    "smooth_rpm (rpm_history s') i = Inr (stable_rpm s')" by simp
  from smooth_rpm_spec[OF this] have 1: "stable_rpm s' =
    (if 5 \<le> length (rpm_history s') then trimmed_mean (rpm_history s')
     else plain_mean (rpm_history s'))" .
  have 2: "trimmed_mean [100, 100, 100, 100, 200] = 100"
    by (simp add: trimmed_mean_def plain_mean_def)
  have 3: "smooth_rpm [100, 100, 100, 100, 200] x = Inr 100"
    by (simp add: smooth_rpm_def py_truediv_def)
  from 1 2 3 show ?thesis by blast
qed

theorem smoothed_rpm_trimmed_mean_witness:
  "\<exists>s'. check_hall_sensor config_py True 1100000 four_samples_state = Inr s'
     \<and> valid_rotation_count s' \<noteq> valid_rotation_count four_samples_state
     \<and> rpm_history s' = [500, 500, 500, 500, 600]
     \<and> stable_rpm s' = trimmed_mean [500, 500, 500, 500, 600]
     \<and> stable_rpm s' = 500"
proof -
  have "\<exists>s'. check_hall_sensor config_py True 1100000 four_samples_state = Inr s'
     \<and> valid_rotation_count s' \<noteq> valid_rotation_count four_samples_state
     \<and> rpm_history s' = [500, 500, 500, 500, 600] \<and> stable_rpm s' = 500"
    by (simp add: four_samples_state_def spinning_state_def initial_state_def config_py_def
        check_hall_sensor_def hall_accept_def hall_finish_def smooth_rpm_def ebind_def
        py_truediv_def py_floordiv_def py_int_def Let_def)
  then obtain s' where
    e: "check_hall_sensor config_py True 1100000 four_samples_state = Inr s'" and
    v: "valid_rotation_count s' \<noteq> valid_rotation_count four_samples_state" and
    h: "rpm_history s' = [500, 500, 500, 500, 600]" and st: "stable_rpm s' = 500"
    by blast
  from smoothed_rpm_trimmed_mean[OF e v] h st e v show ?thesis by auto
qed

lemma floor_per_slice:
  assumes "0 < rpm" and "0 < NUM_DIVISIONS cfg"
  shows "\<lfloor>per_slice_spec cfg rpm\<rfloor> =
           max (py_int (60000000 / rpm) div NUM_DIVISIONS cfg) (LED_UPDATE_TIME_US cfg)"
proof -
  have 1: "py_int (60000000 / rpm) = \<lfloor>60000000 / rpm\<rfloor>"
    using assms(1) by (simp add: py_int_def)
  have 2: "\<lfloor>60000000 / rpm / real_of_int (NUM_DIVISIONS cfg)\<rfloor>
             = \<lfloor>60000000 / rpm\<rfloor> div NUM_DIVISIONS cfg"
    using assms(2) by (intro floor_divide_real_eq_div) simp
  have 3: "\<lfloor>max a (real_of_int F)\<rfloor> = max \<lfloor>a\<rfloor> F" for a F
    by (simp add: max_def le_floor_iff floor_le_iff) linarith
  show ?thesis unfolding per_slice_spec_def 3 2 1 ..
qed

text \<open>
  Claim C6, as the code has it. After an accepted reading the line time is a whole number
  of microseconds, not below \<^verbatim>\<open>LED_UPDATE_TIME_US\<close> and less than 1 us away from
  \<open>max (60e6 / smoothed_rpm / divisions) LED_UPDATE_TIME_US\<close>: lines 653-654 truncate the
  quotient to whole microseconds. With the values of \<^verbatim>\<open>config.py\<close> a smoothed RPM of 1500
  gives 2800 us and a smoothed RPM of 500 gives 3000 us.
\<close>

theorem line_time_whole_micros:
  assumes "check_hall_sensor cfg cs t s = Inr s'"
    and "valid_rotation_count s' \<noteq> valid_rotation_count s"
    and "0 < stable_rpm s'" and "0 < NUM_DIVISIONS cfg"
  shows "LED_UPDATE_TIME_US cfg \<le> time_per_line_micros s'
    \<and> \<bar>real_of_int (time_per_line_micros s') - per_slice_spec cfg (stable_rpm s')\<bar> < 1
    \<and> map_sum id stable_rpm
          (hall_polls config_py [(True, 1000000), (False, 1020000), (True, 1040000)]
             (initial_state config_py)) = Inr 1500
    \<and> map_sum id time_per_line_micros
          (hall_polls config_py [(True, 1000000), (False, 1020000), (True, 1040000)]
             (initial_state config_py)) = Inr 2800
    \<and> map_sum id stable_rpm
          (hall_polls config_py [(True, 1000000), (False, 1020000), (True, 1120000)]
             (initial_state config_py)) = Inr 500
    \<and> map_sum id time_per_line_micros
          (hall_polls config_py [(True, 1000000), (False, 1020000), (True, 1120000)]
             (initial_state config_py)) = Inr 3000"
proof -
  from check_hall_accept_path[OF assms(1,2)] obtain i where
    a: "hall_accept cfg cs t i
          (s\<lparr>last_hall_trigger_time := t, rotation_end_event := True\<rparr>) = Inr s'" by blast
  from hall_accept_fields[OF a] have m:
    "time_per_line_micros s' =
       max (py_int (60000000 / stable_rpm s') div NUM_DIVISIONS cfg) (LED_UPDATE_TIME_US cfg)"
    by simp
  then have 0: "LED_UPDATE_TIME_US cfg \<le> time_per_line_micros s'" by simp
  from m have "time_per_line_micros s' = \<lfloor>per_slice_spec cfg (stable_rpm s')\<rfloor>"
    using floor_per_slice[OF assms(3,4)] by simp
  then have 1:
    "\<bar>real_of_int (time_per_line_micros s') - per_slice_spec cfg (stable_rpm s')\<bar> < 1"
    by linarith
  have 2: "map_sum id stable_rpm
          (hall_polls config_py [(True, 1000000), (False, 1020000), (True, 1040000)]
             (initial_state config_py)) = Inr 1500"
    by (simp add: initial_state_def config_py_def check_hall_sensor_def hall_finish_def
        hall_accept_def smooth_rpm_def ebind_def py_truediv_def py_floordiv_def py_int_def Let_def)
  have 3: "map_sum id time_per_line_micros
          (hall_polls config_py [(True, 1000000), (False, 1020000), (True, 1040000)]
             (initial_state config_py)) = Inr 2800"
    by (simp add: initial_state_def config_py_def check_hall_sensor_def hall_finish_def
        hall_accept_def smooth_rpm_def ebind_def py_truediv_def py_floordiv_def py_int_def Let_def)
  have 4: "map_sum id stable_rpm
          (hall_polls config_py [(True, 1000000), (False, 1020000), (True, 1120000)]
             (initial_state config_py)) = Inr 500"
    by (simp add: initial_state_def config_py_def check_hall_sensor_def hall_finish_def
        hall_accept_def smooth_rpm_def ebind_def py_truediv_def py_floordiv_def py_int_def Let_def)
  have 5: "map_sum id time_per_line_micros
          (hall_polls config_py [(True, 1000000), (False, 1020000), (True, 1120000)]
             (initial_state config_py)) = Inr 3000"
    by (simp add: initial_state_def config_py_def check_hall_sensor_def hall_finish_def
        hall_accept_def smooth_rpm_def ebind_def py_truediv_def py_floordiv_def py_int_def Let_def)
  from 0 1 2 3 4 5 show ?thesis by blast
qed

theorem line_time_whole_micros_witness:
  "\<exists>s'. check_hall_sensor config_py True 1187500 spinning_state = Inr s'
     \<and> valid_rotation_count s' \<noteq> valid_rotation_count spinning_state
     \<and> 0 < stable_rpm s' \<and> 0 < NUM_DIVISIONS config_py
     \<and> LED_UPDATE_TIME_US config_py \<le> time_per_line_micros s'
     \<and> \<bar>real_of_int (time_per_line_micros s') - per_slice_spec config_py (stable_rpm s')\<bar> < 1
     \<and> stable_rpm s' = 320 \<and> time_per_line_micros s' = 4687"
proof -
  have "\<exists>s'. check_hall_sensor config_py True 1187500 spinning_state = Inr s'
     \<and> valid_rotation_count s' \<noteq> valid_rotation_count spinning_state
     \<and> stable_rpm s' = 320 \<and> time_per_line_micros s' = 4687"
    by (simp add: spinning_state_def initial_state_def config_py_def
        check_hall_sensor_def hall_accept_def hall_finish_def smooth_rpm_def ebind_def
        py_truediv_def py_floordiv_def py_int_def Let_def)
  then obtain s' where
    e: "check_hall_sensor config_py True 1187500 spinning_state = Inr s'" and
    v: "valid_rotation_count s' \<noteq> valid_rotation_count spinning_state" and
    st: "stable_rpm s' = 320" and l: "time_per_line_micros s' = 4687"
    by blast
  have p: "0 < stable_rpm s'" by (simp add: st)
  have d: "0 < NUM_DIVISIONS config_py" by (simp add: config_py_def)
  from line_time_whole_micros[OF e v p d] e v p d st l show ?thesis by blast
qed

text \<open>
  A first measured period of 187500 us, that is 320 RPM: the line time is 4687 us, the
  quotient \<open>60e6 / 320 / 40\<close> is 4687.5. Every division of this run is exact in doubles too.
\<close>

theorem line_time_counterexample:
  "map_sum id stable_rpm
     (hall_polls config_py [(True, 1000000), (False, 1050000), (True, 1187500)]
        (initial_state config_py)) = Inr 320
   \<and> map_sum id time_per_line_micros
     (hall_polls config_py [(True, 1000000), (False, 1050000), (True, 1187500)]
        (initial_state config_py)) = Inr 4687
   \<and> per_slice_spec config_py 320 = 9375 / 2
   \<and> real_of_int 4687 \<noteq> 9375 / 2"
  by (simp add: initial_state_def config_py_def check_hall_sensor_def hall_finish_def
      hall_accept_def smooth_rpm_def ebind_def py_truediv_def py_floordiv_def py_int_def
      per_slice_spec_def Let_def)

lemma set_tl_subset: "set (tl xs) \<subseteq> set xs"
  by (cases xs) auto

lemma set_fifo_push: "set (fifo_push n h i) \<subseteq> insert i (set h)"
  using set_tl_subset[of "h @ [i]"] by (auto simp: fifo_push_def)

lemma fifo_push_nonempty: "h \<noteq> [] \<or> 1 \<le> n \<Longrightarrow> fifo_push n h i \<noteq> []"
  by (cases h) (auto simp: fifo_push_def)

lemma instant_rpm_bounds:
  assumes "config_ok cfg"
    and "py_int (60000000 / real_of_int (MAX_RPM cfg)) \<le> m"
    and "m \<le> py_int (60000000 / real_of_int (MIN_RPM cfg))"
  shows "0 < m \<and> real_of_int (MIN_RPM cfg) \<le> 60000000 / real_of_int m
       \<and> 60000000 / real_of_int m \<le> real_of_int (MAX_RPM cfg)"
proof -
  from assms(1) have mn: "0 < MIN_RPM cfg" and mx: "0 < MAX_RPM cfg"
    and dv: "MAX_RPM cfg dvd 60000000"
    by (auto simp: config_ok_def)
  from dv obtain k where k: "60000000 = MAX_RPM cfg * k" by (auto simp: dvd_def)
  have kpos: "0 < k" using k mx by (metis zero_less_mult_pos zero_less_numeral)
  have "(60000000::real) = real_of_int (MAX_RPM cfg) * real_of_int k"
    using k by (metis of_int_mult of_int_numeral)
  then have q: "60000000 / real_of_int (MAX_RPM cfg) = real_of_int k"
    using mx by (simp add: field_simps)
  have "py_int (60000000 / real_of_int (MAX_RPM cfg)) = k"
    unfolding q by (simp add: py_int_def)
  with assms(2) have km: "k \<le> m" by simp
  with kpos have mpos: "0 < m" by simp
  have "real_of_int (MAX_RPM cfg) * real_of_int k \<le> real_of_int (MAX_RPM cfg) * real_of_int m"
    using km mx by (simp add: mult_left_mono)
  then have up: "60000000 / real_of_int m \<le> real_of_int (MAX_RPM cfg)"
    using mpos \<open>(60000000::real) = real_of_int (MAX_RPM cfg) * real_of_int k\<close>
    by (simp add: pos_divide_le_eq)
  have "py_int (60000000 / real_of_int (MIN_RPM cfg)) = \<lfloor>60000000 / real_of_int (MIN_RPM cfg)\<rfloor>"
    using mn by (simp add: py_int_def)
  with assms(3) have "real_of_int m \<le> 60000000 / real_of_int (MIN_RPM cfg)"
    by (simp add: le_floor_iff)
  then have "real_of_int m * real_of_int (MIN_RPM cfg) \<le> 60000000"
    using mn by (simp add: pos_le_divide_eq)
  then have lo: "real_of_int (MIN_RPM cfg) \<le> 60000000 / real_of_int m"
    using mpos by (simp add: pos_le_divide_eq mult.commute)
  from mpos lo up show ?thesis by simp
qed

lemma hall_accept_inv:
  assumes ok: "config_ok cfg" and inv: "tracker_inv cfg s"
    and ib: "real_of_int (MIN_RPM cfg) \<le> i \<and> i \<le> real_of_int (MAX_RPM cfg)"
    and same: "rpm_history s1 = rpm_history s" "rot_per_frame s1 = rot_per_frame s"
  shows "\<exists>s'. hall_accept cfg cs t i s1 = Inr s' \<and> tracker_inv cfg s'"
proof -
  let ?P = "fifo_push (RPM_HISTORY_SIZE cfg) (rpm_history s1) i"
  from ok have mn: "0 < MIN_RPM cfg" and nd: "NUM_DIVISIONS cfg \<noteq> 0"
    and sz: "1 \<le> RPM_HISTORY_SIZE cfg"
    by (auto simp: config_ok_def)
  from inv have hb: "\<forall>r\<in>set (rpm_history s).
      real_of_int (MIN_RPM cfg) \<le> r \<and> r \<le> real_of_int (MAX_RPM cfg)"
    and hl: "int (length (rpm_history s)) \<le> RPM_HISTORY_SIZE cfg"
    and rp: "rot_per_frame s \<noteq> 0"
    by (auto simp: tracker_inv_def)
  have pne: "?P \<noteq> []" using sz by (simp add: fifo_push_nonempty)
  have pb: "\<forall>x\<in>set ?P. real_of_int (MIN_RPM cfg) \<le> x \<and> x \<le> real_of_int (MAX_RPM cfg)"
    using set_fifo_push[of "RPM_HISTORY_SIZE cfg" "rpm_history s1" i] hb ib same(1) by auto
  have pl: "int (length ?P) \<le> RPM_HISTORY_SIZE cfg"
    using hl same(1) by (auto simp: fifo_push_def)
  have mnr: "0 < real_of_int (MIN_RPM cfg)" using mn by simp
  from hall_accept_total[OF pne pb mnr nd] rp same(2)
  obtain s' where a: "hall_accept cfg cs t i s1 = Inr s'" by auto
  from hall_accept_fields[OF a] have
    f1: "smooth_rpm ?P i = Inr (stable_rpm s')" and f2: "rpm_history s' = ?P"
    and f3: "rot_per_frame s' = rot_per_frame s1" by simp_all
  from smooth_rpm_bounds[OF pne pb, of i] f1 have
    sb: "real_of_int (MIN_RPM cfg) \<le> stable_rpm s' \<and> stable_rpm s' \<le> real_of_int (MAX_RPM cfg)"
    by simp
  then have "0 < stable_rpm s'" using mnr by linarith
  with sb f2 f3 pb pl rp same(2) have "tracker_inv cfg s'"
    by (simp add: tracker_inv_def)
  with a show ?thesis by blast
qed

lemma tracker_inv_cong:
  assumes "tracker_inv cfg s" and "rpm_history s' = rpm_history s"
    and "stable_rpm s' = stable_rpm s" and "rot_per_frame s' = rot_per_frame s"
  shows "tracker_inv cfg s'"
  using assms by (simp add: tracker_inv_def)

lemma check_hall_sensor_inv:
  assumes ok: "config_ok cfg" and inv: "tracker_inv cfg s"
  shows "\<exists>s'. check_hall_sensor cfg cs t s = Inr s' \<and> tracker_inv cfg s'"
proof (cases "cs \<and> \<not> last_hall_state s")
  case False
  then have "check_hall_sensor cfg cs t s = Inr (s\<lparr>last_hall_state := cs\<rparr>)"
    by (auto simp: check_hall_sensor_def)
  moreover have "tracker_inv cfg (s\<lparr>last_hall_state := cs\<rparr>)"
    using inv by (simp add: tracker_inv_def)
  ultimately show ?thesis by simp
next
  case True
  then have cs: "cs = True" and edge: "\<not> last_hall_state s" by simp_all
  let ?s1 = "s\<lparr>last_hall_trigger_time := t, rotation_end_event := True\<rparr>"
  from ok have mn: "0 < MIN_RPM cfg" and mx: "MIN_RPM cfg \<le> MAX_RPM cfg"
    by (auto simp: config_ok_def)
  then have c0: "MAX_RPM cfg \<noteq> 0" "MIN_RPM cfg \<noteq> 0" by auto
  from inv have rp: "rot_per_frame s \<noteq> 0" by (simp add: tracker_inv_def)
  show ?thesis
  proof (cases "debounce_violation cfg t s")
    case True
    then have "check_hall_sensor cfg cs t s =
        Inr (s\<lparr>last_hall_state := cs, noise_rejected_count := noise_rejected_count s + 1\<rparr>)"
      using cs edge by (simp add: check_hall_sensor_def debounce_violation_def)
    moreover have "tracker_inv cfg
        (s\<lparr>last_hall_state := cs, noise_rejected_count := noise_rejected_count s + 1\<rparr>)"
      using inv by (simp add: tracker_inv_def)
    ultimately show ?thesis by simp
  next
    case nd: False
    show ?thesis
    proof (cases "0 < last_rotation_micros s")
      case False
      with nd cs edge have e: "check_hall_sensor cfg cs t s = hall_finish True t ?s1"
        by (simp add: check_hall_sensor_def debounce_violation_def Let_def)
      from hall_finish_total[of ?s1 True t] rp obtain s' where
        f: "hall_finish True t ?s1 = Inr s'" by auto
      from hall_finish_fields[OF f] inv have "tracker_inv cfg s'"
        by (intro tracker_inv_cong[OF inv]) simp_all
      with e f show ?thesis by simp
    next
      case pos: True
      note m = check_hall_measured[OF edge nd pos c0]
      show ?thesis
      proof (cases "period_in_range cfg t s")
        case False
        then have "check_hall_sensor cfg cs t s = Inr (hall_reject True t ?s1)"
          using m cs by simp
        moreover have "tracker_inv cfg (hall_reject True t ?s1)"
          using inv by (simp add: tracker_inv_def hall_reject_def)
        ultimately show ?thesis by simp
      next
        case inr: True
        let ?m = "t - last_rotation_micros s"
        from instant_rpm_bounds[OF ok, of ?m] inr have
          mpos: "0 < ?m" and
          ib: "real_of_int (MIN_RPM cfg) \<le> 60000000 / real_of_int ?m
               \<and> 60000000 / real_of_int ?m \<le> real_of_int (MAX_RPM cfg)"
          by (simp_all add: period_in_range_def)
        have tne: "real_of_int t - real_of_int (last_rotation_micros s) \<noteq> 0" using mpos by simp
        from hall_accept_inv[OF ok inv ib, of ?s1 True t] obtain sa where
          acc: "hall_accept cfg True t (60000000 / real_of_int ?m) ?s1 = Inr sa"
          and sinv: "tracker_inv cfg sa" by auto
        have rinv: "tracker_inv cfg (hall_reject True t ?s1)"
          using inv by (simp add: tracker_inv_def hall_reject_def)
        show ?thesis
        proof (cases "3 \<le> length (rpm_history s)")
          case False
          with m inr cs tne acc sinv show ?thesis
            by (simp add: ebind_def py_truediv_def)
        next
          case len: True
          then have hne: "rpm_history s \<noteq> []" by auto
          from inv have hb: "\<forall>r\<in>set (rpm_history s).
              real_of_int (MIN_RPM cfg) \<le> r \<and> r \<le> real_of_int (MAX_RPM cfg)"
            by (simp add: tracker_inv_def)
          from mean_bounds[OF hne hb] mn have
            "0 < sum_list (rpm_history s) / real (length (rpm_history s))"
            by (smt (verit) of_int_0_less_iff)
          then have sm: "sum_list (rpm_history s) \<noteq> 0" by auto
          from m inr cs tne len hne sm acc sinv rinv show ?thesis
            by (simp add: ebind_def py_truediv_def)
        qed
      qed
    qed
  qed
qed

lemma hall_polls_inv:
  assumes "config_ok cfg" and "tracker_inv cfg s"
  shows "\<exists>s'. hall_polls cfg polls s = Inr s' \<and> tracker_inv cfg s'"
  using assms(2)
proof (induction polls arbitrary: s)
  case Nil
  then show ?case by simp
next
  case (Cons p polls)
  obtain cs t where p: "p = (cs, t)" by (cases p)
  from check_hall_sensor_inv[OF assms(1) Cons.prems, of cs t] obtain s1 where
    1: "check_hall_sensor cfg cs t s = Inr s1" and 2: "tracker_inv cfg s1" by blast
  from Cons.IH[OF 2] obtain s' where "hall_polls cfg polls s1 = Inr s'" "tracker_inv cfg s'"
    by blast
  with 1 p show ?case by (simp add: ebind_def)
qed

lemma initial_state_inv:
  "config_ok cfg \<Longrightarrow> ROT_PER_FRAME cfg \<noteq> 0 \<Longrightarrow> tracker_inv cfg (initial_state cfg)"
  by (simp add: tracker_inv_def initial_state_def config_ok_def)

text \<open>
  Claim C10. Whatever levels and clock values the sensor polls read, starting from a state
  that satisfies \<open>tracker_inv\<close> (the initial state does), the handler never raises: no
  division by zero occurs. Afterwards every value in the RPM history lies within
  \<open>[MIN_RPM, MAX_RPM]\<close>, the history holds at most \<open>RPM_HISTORY_SIZE\<close> values, and the
  smoothed RPM computed from a non-empty history lies within the same bounds and is
  positive. The bounds of the period test are \<open>60e6 / MAX_RPM\<close> and \<open>60e6 / MIN_RPM\<close>
  truncated to integers; \<open>config_ok\<close> asks that \<open>MAX_RPM\<close> divides \<open>60e6\<close>, as 1500 does.
\<close>

theorem rpm_history_bounded:
  assumes "config_ok cfg" and "tracker_inv cfg s"
  shows "\<exists>s'. hall_polls cfg polls s = Inr s'
     \<and> (\<forall>r\<in>set (rpm_history s').
           real_of_int (MIN_RPM cfg) \<le> r \<and> r \<le> real_of_int (MAX_RPM cfg))
     \<and> int (length (rpm_history s')) \<le> RPM_HISTORY_SIZE cfg
     \<and> (rpm_history s' \<noteq> [] \<longrightarrow>
           real_of_int (MIN_RPM cfg) \<le> stable_rpm s'
           \<and> stable_rpm s' \<le> real_of_int (MAX_RPM cfg) \<and> 0 < stable_rpm s')"
proof -
  from hall_polls_inv[OF assms] obtain s' where
    "hall_polls cfg polls s = Inr s'" and "tracker_inv cfg s'" by blast
  then show ?thesis by (auto simp: tracker_inv_def)
qed

theorem rpm_history_bounded_witness:
  "config_ok config_py \<and> tracker_inv config_py (initial_state config_py)
   \<and> (\<exists>s'. hall_polls config_py
              [(True, 1000000), (False, 1050000), (True, 1120000), (False, 1150000),
               (True, 1220000)] (initial_state config_py) = Inr s'
        \<and> rpm_history s' = [500, 600]
        \<and> (\<forall>r\<in>set (rpm_history s').
              real_of_int (MIN_RPM config_py) \<le> r \<and> r \<le> real_of_int (MAX_RPM config_py))
        \<and> int (length (rpm_history s')) \<le> RPM_HISTORY_SIZE config_py
        \<and> real_of_int (MIN_RPM config_py) \<le> stable_rpm s'
        \<and> stable_rpm s' \<le> real_of_int (MAX_RPM config_py) \<and> 0 < stable_rpm s')"
proof -
  have ok: "config_ok config_py" by (simp add: config_ok_def config_py_def)
  have inv: "tracker_inv config_py (initial_state config_py)"
    by (simp add: tracker_inv_def initial_state_def config_py_def)
  have h: "map_sum id rpm_history (hall_polls config_py
              [(True, 1000000), (False, 1050000), (True, 1120000), (False, 1150000),
               (True, 1220000)] (initial_state config_py)) = Inr [500, 600]"
    by (simp add: initial_state_def config_py_def check_hall_sensor_def hall_finish_def
        hall_accept_def smooth_rpm_def ebind_def py_truediv_def py_floordiv_def py_int_def Let_def)
  from rpm_history_bounded[OF ok inv, of "[(True, 1000000), (False, 1050000), (True, 1120000),
      (False, 1150000), (True, 1220000)]"] h ok inv
  show ?thesis by auto
qed

subsection \<open>The arrangement of a table\<close>

lemma fold_update_length:
  "length (fold (\<lambda>i line. if c i then line[p i := v i] else line) xs line0) = length line0"
  by (induction xs arbitrary: line0) auto

lemma fold_update_other:
  "\<forall>j\<in>set xs. p j \<noteq> k \<Longrightarrow>
   fold (\<lambda>i line. if c i then line[p i := v i] else line) xs line0 ! k = line0 ! k"
  by (induction xs arbitrary: line0) auto

lemma fold_update_hit:
  assumes "i \<in> set xs" and "distinct xs" and "c i" and "p i < length line0"
    and "\<forall>j\<in>set xs. j \<noteq> i \<longrightarrow> p j \<noteq> p i"
  shows "fold (\<lambda>i line. if c i then line[p i := v i] else line) xs line0 ! p i = v i"
  using assms
proof (induction xs arbitrary: line0)
  case Nil
  then show ?case by simp
next
  case (Cons x xs)
  show ?case
  proof (cases "x = i")
    case True
    with Cons.prems have "\<forall>j\<in>set xs. p j \<noteq> p i" by auto
    then have "fold (\<lambda>i line. if c i then line[p i := v i] else line) xs (line0[p i := v i]) ! p i
                 = (line0[p i := v i]) ! p i"
      by (rule fold_update_other)
    also have "\<dots> = v i" using Cons.prems(4) by simp
    finally show ?thesis using True Cons.prems(3) by simp
  next
    case False
    with Cons.prems have "i \<in> set xs" "distinct xs" "\<forall>j\<in>set xs. j \<noteq> i \<longrightarrow> p j \<noteq> p i"
      by auto
    from Cons.IH[OF this(1,2) Cons.prems(3) _ this(3)] Cons.prems(4) show ?thesis by simp
  qed
qed

lemma first_half_length: "length (first_half cfg row line) = length line"
  unfolding first_half_def by (rule fold_update_length)

lemma first_half_nth:
  assumes "i < num_leds_one_side cfg" and "i * 2 + 1 < length row"
    and "num_leds_one_side cfg \<le> length line"
  shows "first_half cfg row line ! (num_leds_one_side cfg - i - 1)
           = sample_color cfg (row ! (i * 2 + 1))"
  unfolding first_half_def
  by (rule fold_update_hit[where p = "\<lambda>i. num_leds_one_side cfg - i - 1"
          and c = "\<lambda>i. i * 2 + 1 < length row"
          and v = "\<lambda>i. sample_color cfg (row ! (i * 2 + 1))"])
     (use assms in auto)

lemma second_half_low:
  assumes "k < num_leds_one_side cfg"
  shows "second_half cfg row line ! k = line ! k"
  unfolding second_half_def
  by (rule fold_update_other) (use assms in auto)

lemma second_half_nth:
  assumes "i < num_leds_one_side cfg" and "i * 2 < length row"
    and "num_leds_one_side cfg + i < length line"
  shows "second_half cfg row line ! (num_leds_one_side cfg + i) = sample_color cfg (row ! (i * 2))"
  unfolding second_half_def
  by (rule fold_update_hit[where p = "\<lambda>i. num_leds_one_side cfg + i"
          and c = "\<lambda>i. i * 2 < length row"
          and v = "\<lambda>i. sample_color cfg (row ! (i * 2))"])
     (use assms in auto)

lemma sample_color_floored:
  assumes "unsigned_sample smp" and "0 \<le> BRIGHTNESS_RATIO cfg"
  shows "sample_color cfg smp = floored_sample cfg smp"
  using assms
  by (cases smp)
     (simp add: sample_color_def floored_sample_def unsigned_sample_def make_color_def
        py_int_def Let_def)

lemma arrange_row:
  assumes "d < length tbl"
  shows "arrange_colors_for_display cfg tbl ! d =
     second_half cfg (tbl ! ((d + length tbl div 2) mod length tbl))
       (first_half cfg (tbl ! d) (replicate (nat (NUM_LEDS cfg)) (make_color cfg 0 0 0)))"
  using assms by (simp add: arrange_colors_for_display_def Let_def)

lemma two_sides_fit:
  assumes "i < num_leds_one_side cfg"
  shows "num_leds_one_side cfg + i < nat (NUM_LEDS cfg)"
  using assms unfolding num_leds_one_side_def by linarith

text \<open>
  Claim C7. For a source table with an even number of divisions and unsigned channels, a
  division \<open>d\<close> and \<open>i < L\<close> (\<open>L\<close> the strip length halved): position \<open>L - 1 - i\<close> of the
  arranged row holds the sample at odd index \<open>2i + 1\<close> of division \<open>d\<close>, and position
  \<open>L + i\<close> holds the sample at even index \<open>2i\<close> of the opposite division
  \<open>(d + divisions / 2) mod divisions\<close>, each channel scaled by the brightness ratio and
  floored. The witness is a synthetic table whose samples encode division and index.
\<close>

theorem arrange_mapping:
  assumes "even (length tbl)" and "d < length tbl" and "i < num_leds_one_side cfg"
    and "0 \<le> BRIGHTNESS_RATIO cfg"
    and "\<forall>row\<in>set tbl. \<forall>smp\<in>set row. unsigned_sample smp"
    and "2 * i + 1 < length (tbl ! d)"
    and "2 * i < length (tbl ! ((d + length tbl div 2) mod length tbl))"
  shows "arrange_colors_for_display cfg tbl ! d ! (num_leds_one_side cfg - 1 - i)
           = floored_sample cfg (tbl ! d ! (2 * i + 1))
       \<and> arrange_colors_for_display cfg tbl ! d ! (num_leds_one_side cfg + i)
           = floored_sample cfg (tbl ! ((d + length tbl div 2) mod length tbl) ! (2 * i))"
proof -
  let ?L = "num_leds_one_side cfg"
  let ?o = "(d + length tbl div 2) mod length tbl"
  let ?blank = "replicate (nat (NUM_LEDS cfg)) (make_color cfg 0 0 0)"
  have fit: "?L + i < nat (NUM_LEDS cfg)" by (rule two_sides_fit[OF assms(3)])
  have "0 < length tbl" using assms(2) by linarith
  then have lo: "?o < length tbl" by (rule mod_less_divisor)
  have u1: "unsigned_sample (tbl ! d ! (2 * i + 1))"
    using assms(2,5,6) by (meson nth_mem)
  have u2: "unsigned_sample (tbl ! ?o ! (2 * i))"
    using lo assms(5,7) by (meson nth_mem)
  have pos: "?L - 1 - i = ?L - i - 1" by simp
  have a: "arrange_colors_for_display cfg tbl ! d ! (?L - 1 - i)
             = first_half cfg (tbl ! d) ?blank ! (?L - i - 1)"
    unfolding arrange_row[OF assms(2)] pos
    by (rule second_half_low) (use assms(3) in simp)
  also have "\<dots> = sample_color cfg (tbl ! d ! (i * 2 + 1))"
    by (rule first_half_nth) (use assms(3,6) fit in \<open>simp_all add: mult.commute\<close>)
  also have "\<dots> = floored_sample cfg (tbl ! d ! (2 * i + 1))"
    using sample_color_floored[OF u1 assms(4)] by (simp add: mult.commute)
  finally have A: "arrange_colors_for_display cfg tbl ! d ! (?L - 1 - i)
             = floored_sample cfg (tbl ! d ! (2 * i + 1))" .
  have "arrange_colors_for_display cfg tbl ! d ! (?L + i)
             = sample_color cfg (tbl ! ?o ! (i * 2))"
    unfolding arrange_row[OF assms(2)]
    by (rule second_half_nth)
       (use assms(3,7) fit in \<open>simp_all add: mult.commute first_half_length\<close>)
  also have "\<dots> = floored_sample cfg (tbl ! ?o ! (2 * i))"
    using sample_color_floored[OF u2 assms(4)] by (simp add: mult.commute)
  finally have B: "arrange_colors_for_display cfg tbl ! d ! (?L + i)
             = floored_sample cfg (tbl ! ?o ! (2 * i))" .
  from A B show ?thesis by simp
qed

theorem arrange_mapping_witness:
  "even (length (synthetic_table 2 4)) \<and> (1::nat) < num_leds_one_side synthetic_config
   \<and> arrange_colors_for_display synthetic_config (synthetic_table 2 4) ! 0 ! 0
       = floored_sample synthetic_config (0, 3, 0)
   \<and> arrange_colors_for_display synthetic_config (synthetic_table 2 4) ! 0 ! 3
       = floored_sample synthetic_config (1, 2, 0)
   \<and> floored_sample synthetic_config (0, 3, 0) = Color 3 0 0
   \<and> floored_sample synthetic_config (1, 2, 0) = Color 2 1 0"
proof -
  have t: "synthetic_table 2 4 =
      [[(0, 0, 0), (0, 1, 0), (0, 2, 0), (0, 3, 0)], [(1, 0, 0), (1, 1, 0), (1, 2, 0), (1, 3, 0)]]"
    by (simp add: synthetic_table_def upt_rec)
  have L: "num_leds_one_side synthetic_config = 2"
    by (simp add: num_leds_one_side_def synthetic_config_def)
  have h1: "even (length (synthetic_table 2 4))" by (simp add: t)
  have h2: "0 < length (synthetic_table 2 4)" by (simp add: t)
  have h3: "(1::nat) < num_leds_one_side synthetic_config" by (simp add: L)
  have h4: "0 \<le> BRIGHTNESS_RATIO synthetic_config" by (simp add: synthetic_config_def)
  have h5: "\<forall>row\<in>set (synthetic_table 2 4). \<forall>smp\<in>set row. unsigned_sample smp"
    by (simp add: t unsigned_sample_def)
  have h6: "2 * 1 + 1 < length (synthetic_table 2 4 ! 0)" by (simp add: t)
  have h7: "2 * 1 < length (synthetic_table 2 4 !
      ((0 + length (synthetic_table 2 4) div 2) mod length (synthetic_table 2 4)))"
    by (simp add: t)
  have f: "floored_sample synthetic_config (0, 3, 0) = Color 3 0 0"
     "floored_sample synthetic_config (1, 2, 0) = Color 2 1 0"
    by (simp_all add: floored_sample_def synthetic_config_def config_py_def)
  from arrange_mapping[OF h1 h2 h3 h4 h5 h6 h7] h1 h3 f show ?thesis
    by (simp add: L t)
qed

subsection \<open>Mode changes\<close>

lemma push_line_fields:
  "display_data (push_line cfg l s) = display_data s"
  "current_mode (push_line cfg l s) = current_mode s"
  "rotation_count (push_line cfg l s) = rotation_count s"
  "last_button_states (push_line cfg l s) = last_button_states s"
  "last_button_time (push_line cfg l s) = last_button_time s"
  by (simp_all add: push_line_def Let_def)

lemma flash_mode_change_fields:
  "display_data (flash_mode_change cfg s) = display_data s"
  "current_mode (flash_mode_change cfg s) = current_mode s"
  "rotation_count (flash_mode_change cfg s) = rotation_count s"
  "last_button_states (flash_mode_change cfg s) = last_button_states s"
  "last_button_time (flash_mode_change cfg s) = last_button_time s"
  by (simp_all add: flash_mode_change_def show_static_preview_def push_line_fields Let_def)

lemma py_range_ring: "py_range (- 2) 3 = [- 2, - 1, 0, 1, 2]"
  by (simp add: py_range_def upto.simps)

lemma circle_row_config_py:
  assumes "row \<in> set (generate_circle_data config_py 28 (r, g, b))"
  shows "length row = 72
    \<and> row ! 8 = make_color config_py (real_of_int r * 3 / 10) (real_of_int g * 3 / 10)
                   (real_of_int b * 3 / 10)
    \<and> row ! 64 = make_color config_py (real_of_int r * 3 / 10) (real_of_int g * 3 / 10)
                   (real_of_int b * 3 / 10)"
  using assms
  by (auto simp: generate_circle_data_def config_py_def py_range_ring mark_led_def Let_def
      nth_list_update)

lemma circle_length_config_py: "length (generate_circle_data config_py 28 c) = 40"
  by (cases c) (simp add: generate_circle_data_def config_py_def Let_def)



lemma button_done_fields:
  "display_data (button_done b p st now s) = display_data s"
  "current_mode (button_done b p st now s) = current_mode s"
  "rotation_count (button_done b p st now s) = rotation_count s"
  by (simp_all add: button_done_def)

lemma button_released: "\<not> button_pressed b True now d s"
  by (simp add: button_pressed_def)

text \<open>
  What a press of the circle button does while the mode is already circle (the other
  buttons released): the circle table is generated again in the palette colour at index
  \<open>rotation_count mod 4\<close>; the mode and the rotation counter stay as they were. The colour
  shown before plays no part in the choice.
\<close>

lemma circle_button_color:
  assumes "current_mode s = circle"
    and "button_pressed BUTTON_CIRCLE (levels BUTTON_CIRCLE) now (BUTTON_DEBOUNCE_TIME cfg) s"
    and "levels BUTTON_SQUARE" and "levels BUTTON_IMAGE"
  shows "\<exists>s'. check_buttons cfg fs levels now s = Inr s'
     \<and> current_mode s' = circle
     \<and> rotation_count s' = rotation_count s
     \<and> display_data s' =
         generate_circle_data cfg 28 (circle_colors ! nat (rotation_count s mod 4))"
proof -
  have c: "cycle_content cfg fs s =
      Inr (flash_mode_change cfg
             (s\<lparr>display_data :=
                  generate_circle_data cfg 28
                    (circle_colors ! nat (rotation_count s mod int (length circle_colors)))\<rparr>))"
    using assms(1) by (simp add: cycle_content_def)
  have l: "int (length circle_colors) = 4" by (simp add: circle_colors_def)
  show ?thesis
    using assms
    by (simp add: check_buttons_def c l ebind_def Let_def button_released button_done_fields
        flash_mode_change_fields)
qed

lemma circle_button_color_startup:
  "current_mode startup_state = circle
   \<and> button_pressed BUTTON_CIRCLE (circle_button_down BUTTON_CIRCLE) 1
        (BUTTON_DEBOUNCE_TIME config_py) startup_state
   \<and> circle_button_down BUTTON_SQUARE \<and> circle_button_down BUTTON_IMAGE
   \<and> (\<exists>s'. check_buttons config_py no_files circle_button_down 1 startup_state = Inr s'
        \<and> current_mode s' = circle
        \<and> display_data s' = generate_circle_data config_py 28 (0, 255, 255))"
proof -
  have a: "current_mode startup_state = circle"
    by (simp add: startup_state_def set_mode_circle_def flash_mode_change_fields)
  have b: "button_pressed BUTTON_CIRCLE (circle_button_down BUTTON_CIRCLE) 1
        (BUTTON_DEBOUNCE_TIME config_py) startup_state"
    by (simp add: button_pressed_def circle_button_down_def startup_state_def
        set_mode_circle_def flash_mode_change_fields initial_state_def config_py_def)
  have c: "circle_button_down BUTTON_SQUARE" "circle_button_down BUTTON_IMAGE"
    by (simp_all add: circle_button_down_def)
  have r: "rotation_count startup_state = 0"
    by (simp add: startup_state_def set_mode_circle_def flash_mode_change_fields
        initial_state_def)
  from circle_button_color[OF a b c, of no_files] a b c r show ?thesis
    by (auto simp: circle_colors_def)
qed

text \<open>
  Claim C9 says that a press of the circle button in circle mode advances the colour to the
  next palette entry. After start-up the circle is shown in the first palette colour and no
  rotation has been counted. A press of the circle button then shows the first palette
  colour again, although the code announces a changed colour; the table of the second
  palette colour is a different one.
\<close>

theorem circle_button_counterexample:
  "display_data startup_state = generate_circle_data config_py 28 (circle_colors ! 0)
   \<and> map_sum id display_data
       (check_buttons config_py no_files circle_button_down 1 startup_state)
       = Inr (generate_circle_data config_py 28 (circle_colors ! 0))
   \<and> generate_circle_data config_py 28 (circle_colors ! 1)
       \<noteq> generate_circle_data config_py 28 (circle_colors ! 0)"
proof -
  have a: "current_mode startup_state = circle"
    by (simp add: startup_state_def set_mode_circle_def flash_mode_change_fields)
  have r: "rotation_count startup_state = 0"
    by (simp add: startup_state_def set_mode_circle_def flash_mode_change_fields
        initial_state_def)
  have d: "display_data startup_state = generate_circle_data config_py 28 (circle_colors ! 0)"
    by (simp add: startup_state_def set_mode_circle_def flash_mode_change_fields
        circle_colors_def)
  have b: "button_pressed BUTTON_CIRCLE (circle_button_down BUTTON_CIRCLE) 1
        (BUTTON_DEBOUNCE_TIME config_py) startup_state"
    by (simp add: button_pressed_def circle_button_down_def startup_state_def
        set_mode_circle_def flash_mode_change_fields initial_state_def config_py_def)
  have c: "cycle_content config_py no_files startup_state =
      Inr (flash_mode_change config_py
             (startup_state\<lparr>display_data :=
                  generate_circle_data config_py 28 (circle_colors ! 0)\<rparr>))"
    using a r by (simp add: cycle_content_def circle_colors_def)
  have e: "map_sum id display_data
       (check_buttons config_py no_files circle_button_down 1 startup_state)
       = Inr (generate_circle_data config_py 28 (circle_colors ! 0))"
    using a b
    by (simp add: check_buttons_def c ebind_def Let_def button_released button_done_fields
        flash_mode_change_fields circle_button_down_def)
  have n: "generate_circle_data config_py 28 (circle_colors ! 1)
       \<noteq> generate_circle_data config_py 28 (circle_colors ! 0)"
  proof
    assume eq: "generate_circle_data config_py 28 (circle_colors ! 1)
       = generate_circle_data config_py 28 (circle_colors ! 0)"
    have "generate_circle_data config_py 28 (circle_colors ! 1) \<noteq> []"
      using circle_length_config_py[of "circle_colors ! 1"] by auto
    then obtain row where m: "row \<in> set (generate_circle_data config_py 28 (circle_colors ! 1))"
      by (meson last_in_set)
    then have m0: "row \<in> set (generate_circle_data config_py 28 (circle_colors ! 0))"
      using eq by simp
    from circle_row_config_py[of row 255 255 0] m
    have "row ! 8 = Color 76 76 0"
      by (simp add: circle_colors_def make_color_def config_py_def py_int_def)
    moreover from circle_row_config_py[of row 0 255 255] m0
    have "row ! 8 = Color 76 0 76"
      by (simp add: circle_colors_def make_color_def config_py_def py_int_def)
    ultimately show False by simp
  qed
  from d e n show ?thesis by blast
qed

subsection \<open>The scheduler\<close>

lemma observe_fields:
  "current_line (observe p s) = current_line s"
  "missed_lines_count (observe p s) = missed_lines_count s"
  "time_per_line_micros (observe p s) = time_per_line_micros s"
  "rotation_end_event (observe p s) = (rotation_end_event s \<or> p)"
  by (simp_all add: observe_def)

lemma push_line_scheduler_fields:
  "current_line (push_line cfg l s) = current_line s"
  "missed_lines_count (push_line cfg l s) = missed_lines_count s"
  "time_per_line_micros (push_line cfg l s) = time_per_line_micros s"
  "rotation_end_event (push_line cfg l s) = rotation_end_event s"
  by (simp_all add: push_line_def Let_def)

lemma display_current_line_unfold:
  assumes "rotation_active s" and "0 < time_per_line_micros s"
    and "current_frame s = Inr frame_data" and "slice_count cfg s \<noteq> 0"
  shows "\<exists>s4. current_line s4 = resync_line s
          \<and> missed_lines_count s4 = missed_lines_count s
          \<and> time_per_line_micros s4 = time_per_line_micros s
          \<and> rotation_end_event s4 = (p0 \<or> p1)
          \<and> display_current_line cfg ((t0, p0) # (t1, p1) # ticks2) s =
              (case wait_or_skip cfg (remaining_time cfg s t0 t1) ticks2 s4 of
                 None \<Rightarrow> None
               | Some (ticks3, s5) \<Rightarrow>
                   Some (Inr (advance_line (slice_count cfg s) s5, ticks3)))"
proof -
  define s1 where "s1 = (if rotation_end_event s
                  then s\<lparr>rotation_end_event := False, current_line := 0\<rparr> else s)"
  define n where "n = slice_count cfg s"
  define lts where "lts = (current_line s1 + LINES_TO_SHIFT cfg + n * 2) mod n"
  define s3 where "s3 = (if frame_data \<noteq> [] \<and> lts < int (length frame_data)
                         then push_line cfg (frame_data ! nat lts) (observe p0 s1)
                         else observe p0 s1)"
  define s4 where "s4 = observe p1 s3"
  have "current_frame s1 = current_frame s"
    by (auto simp: s1_def current_frame_def)
  then have cf: "current_frame s1 = Inr frame_data"
    using assms(3) by simp
  have nv: "n = (if frame_data \<noteq> [] then int (length frame_data) else NUM_DIVISIONS cfg)"
    using assms(3) by (simp add: n_def slice_count_def)
  have n0: "n \<noteq> 0" using assms(4) by (simp add: n_def)
  have 1: "current_line s4 = resync_line s"
    by (simp add: s4_def s3_def s1_def resync_line_def observe_fields push_line_scheduler_fields)
  have 2: "missed_lines_count s4 = missed_lines_count s"
    by (simp add: s4_def s3_def s1_def observe_fields push_line_scheduler_fields)
  have 3: "time_per_line_micros s4 = time_per_line_micros s"
    by (simp add: s4_def s3_def s1_def observe_fields push_line_scheduler_fields)
  have 4: "rotation_end_event s4 = (p0 \<or> p1)"
    by (auto simp: s4_def s3_def s1_def observe_fields push_line_scheduler_fields)
  have a: "rotation_active s1" "time_per_line_micros s1 = time_per_line_micros s"
    using assms(1) by (simp_all add: s1_def)
  have 5: "display_current_line cfg ((t0, p0) # (t1, p1) # ticks2) s =
              (case wait_or_skip cfg (remaining_time cfg s t0 t1) ticks2 s4 of
                 None \<Rightarrow> None
               | Some (ticks3, s5) \<Rightarrow> Some (Inr (advance_line n s5, ticks3)))"
    using assms(1,2) cf n0
    unfolding display_current_line_def s1_def[symmetric] Let_def
    by (auto simp: nv py_mod_def get_time_micros_def lts_def s3_def s4_def remaining_time_def
        observe_fields push_line_scheduler_fields a split: option.splits)
  from 1 2 3 4 5 show ?thesis unfolding n_def by blast
qed

lemma py_int_div:
  assumes "0 \<le> a" and "0 < b"
  shows "py_int (real_of_int a / real_of_int b) = a div b"
proof -
  have "0 \<le> real_of_int a / real_of_int b" using assms by simp
  then have "py_int (real_of_int a / real_of_int b) = \<lfloor>real_of_int a / real_of_int b\<rfloor>"
    by (simp add: py_int_def)
  then show ?thesis by (simp add: floor_divide_of_int_eq)
qed

lemma wait_or_skip_behind:
  assumes "remaining < - 1000" and "0 < time_per_line_micros s"
  shows "\<exists>s5. wait_or_skip cfg remaining ticks s = Some (ticks, s5)
     \<and> current_line s5 = current_line s + (- remaining) div time_per_line_micros s
     \<and> missed_lines_count s5 = missed_lines_count s + (- remaining) div time_per_line_micros s
     \<and> rotation_end_event s5 = rotation_end_event s"
proof -
  have sk: "py_int (real_of_int (- remaining) / real_of_int (time_per_line_micros s))
              = (- remaining) div time_per_line_micros s"
    using assms by (intro py_int_div) simp_all
  have nn: "0 \<le> (- remaining) div time_per_line_micros s"
    using assms by (simp add: pos_imp_zdiv_nonneg_iff)
  show ?thesis
  proof (cases "0 < (- remaining) div time_per_line_micros s")
    case True
    with assms(1) sk show ?thesis by (simp add: wait_or_skip_def Let_def)
  next
    case False
    with nn have "(- remaining) div time_per_line_micros s = 0" by simp
    with assms(1) sk show ?thesis by (simp add: wait_or_skip_def Let_def)
  qed
qed

lemma advance_line_fields:
  "current_line (advance_line n s) = (if n \<le> current_line s + 1 then 0 else current_line s + 1)"
  "missed_lines_count (advance_line n s) = missed_lines_count s"
  "rotation_end_event (advance_line n s) = rotation_end_event s"
  by (simp_all add: advance_line_def)

lemma display_behind:
  assumes "rotation_active s" and "0 < time_per_line_micros s"
    and "current_frame s = Inr frame_data" and "slice_count cfg s \<noteq> 0"
    and "remaining_time cfg s t0 t1 < - 1000"
  shows "\<exists>s'. display_current_line cfg ((t0, p0) # (t1, p1) # rest) s = Some (Inr (s', rest))
     \<and> missed_lines_count s' =
         missed_lines_count s + (- remaining_time cfg s t0 t1) div time_per_line_micros s
     \<and> current_line s' =
         (if slice_count cfg s
               \<le> resync_line s + (- remaining_time cfg s t0 t1) div time_per_line_micros s + 1
          then 0
          else resync_line s + (- remaining_time cfg s t0 t1) div time_per_line_micros s + 1)"
proof -
  from display_current_line_unfold[OF assms(1-4), of p0 p1 t0 t1 rest] obtain s4 where
    a: "current_line s4 = resync_line s" "missed_lines_count s4 = missed_lines_count s"
       "time_per_line_micros s4 = time_per_line_micros s" and
    d: "display_current_line cfg ((t0, p0) # (t1, p1) # rest) s =
          (case wait_or_skip cfg (remaining_time cfg s t0 t1) rest s4 of
             None \<Rightarrow> None
           | Some (ticks3, s5) \<Rightarrow> Some (Inr (advance_line (slice_count cfg s) s5, ticks3)))"
    by blast
  have "0 < time_per_line_micros s4" using a(3) assms(2) by simp
  from wait_or_skip_behind[OF assms(5) this, of cfg rest] obtain s5 where
    w: "wait_or_skip cfg (remaining_time cfg s t0 t1) rest s4 = Some (rest, s5)" and
    b: "current_line s5 = current_line s4
          + (- remaining_time cfg s t0 t1) div time_per_line_micros s4"
       "missed_lines_count s5 = missed_lines_count s4
          + (- remaining_time cfg s t0 t1) div time_per_line_micros s4"
    by blast
  show ?thesis
    by (simp add: d w advance_line_fields a b)
qed

lemma flash_mode_change_timer_fields:
  "time_per_line_micros (flash_mode_change cfg s) = time_per_line_micros s"
  "rotation_end_event (flash_mode_change cfg s) = rotation_end_event s"
  "rotation_active (flash_mode_change cfg s) = rotation_active s"
  "missed_lines_count (flash_mode_change cfg s) = missed_lines_count s"
  "current_line (flash_mode_change cfg s) = current_line s"
  by (simp_all add: flash_mode_change_def show_static_preview_def push_line_def Let_def)

lemma running_state_facts:
  "rotation_active (running_state l)"
  "time_per_line_micros (running_state l) = 3000"
  "current_frame (running_state l) = Inr (generate_circle_data config_py 28 (0, 255, 255))"
  "slice_count config_py (running_state l) = 40"
  "resync_line (running_state l) = l"
  "missed_lines_count (running_state l) = 0"
  "TIMING_MARGIN_US config_py = 300"
proof -
  show "rotation_active (running_state l)" by (simp add: running_state_def)
  show "time_per_line_micros (running_state l) = 3000"
    by (simp add: running_state_def startup_state_def set_mode_circle_def
        flash_mode_change_timer_fields initial_state_def config_py_def py_int_def)
  show cf: "current_frame (running_state l)
              = Inr (generate_circle_data config_py 28 (0, 255, 255))"
    by (simp add: running_state_def startup_state_def set_mode_circle_def current_frame_def
        flash_mode_change_fields)
  have "generate_circle_data config_py 28 (0, 255, 255) \<noteq> []"
    using circle_length_config_py[of "(0, 255, 255)"] by auto
  then show "slice_count config_py (running_state l) = 40"
    by (simp add: slice_count_def cf circle_length_config_py)
  show "resync_line (running_state l) = l"
    by (simp add: resync_line_def running_state_def startup_state_def set_mode_circle_def
        flash_mode_change_timer_fields initial_state_def)
  show "missed_lines_count (running_state l) = 0"
    by (simp add: running_state_def startup_state_def set_mode_circle_def
        flash_mode_change_timer_fields initial_state_def)
  show "TIMING_MARGIN_US config_py = 300" by (simp add: config_py_def)
qed

text \<open>
  Claim C1, as the code has it. When \<^verbatim>\<open>remaining < -1000\<close>, the iteration returns with the
  missed-line counter increased by \<open>skip = floor (- remaining / time_per_line_micros)\<close> and
  the line index advanced by \<open>skip + 1\<close>: the skip is added before the normal advance of
  1, not in its place. An index that reaches or exceeds the division count is reset to 0.
\<close>

theorem catch_up_advance:
  assumes "rotation_active s" and "0 < time_per_line_micros s"
    and "current_frame s = Inr frame_data" and "slice_count cfg s \<noteq> 0"
    and "remaining_time cfg s t0 t1 < - 1000"
  shows "\<exists>s'. display_current_line cfg ((t0, p0) # (t1, p1) # rest) s = Some (Inr (s', rest))
     \<and> missed_lines_count s' =
         missed_lines_count s + (- remaining_time cfg s t0 t1) div time_per_line_micros s
     \<and> current_line s' =
         (if slice_count cfg s
               \<le> resync_line s + (- remaining_time cfg s t0 t1) div time_per_line_micros s + 1
          then 0
          else resync_line s + (- remaining_time cfg s t0 t1) div time_per_line_micros s + 1)"
  using assms by (rule display_behind)

theorem catch_up_advance_witness:
  "rotation_active (running_state 5) \<and> 0 < time_per_line_micros (running_state 5)
   \<and> slice_count config_py (running_state 5) \<noteq> 0
   \<and> remaining_time config_py (running_state 5) 0 10000 < - 1000
   \<and> (\<exists>s'. display_current_line config_py [(0, False), (10000, False)] (running_state 5)
               = Some (Inr (s', []))
        \<and> missed_lines_count s' = 2 \<and> current_line s' = 8)"
proof -
  have r: "remaining_time config_py (running_state 5) 0 10000 = - 7300"
    by (simp add: remaining_time_def running_state_facts py_int_def)
  have h1: "rotation_active (running_state 5)" by (rule running_state_facts)
  have h2: "0 < time_per_line_micros (running_state 5)" by (simp add: running_state_facts)
  have h3: "current_frame (running_state 5)
              = Inr (generate_circle_data config_py 28 (0, 255, 255))"
    by (rule running_state_facts)
  have h4: "slice_count config_py (running_state 5) \<noteq> 0" by (simp add: running_state_facts)
  have h5: "remaining_time config_py (running_state 5) 0 10000 < - 1000" by (simp add: r)
  from catch_up_advance[OF h1 h2 h3 h4 h5, of False False "[]"] h1 h2 h4 h5
  show ?thesis by (simp add: r running_state_facts)
qed

text \<open>
  An update that takes 10000 us with a line time of 3000 us: \<open>remaining = -7300\<close> and
  \<open>skip = 2\<close>. From line 5 the index goes to 8, not to 7. From line 39 of 40 the index
  goes to 0, where wrapping modulo 40 gives 1 for an advance of 2 and 2 for an advance of 3.
\<close>

theorem catch_up_counterexample:
  "remaining_time config_py (running_state 5) 0 10000 = - 7300
   \<and> (7300::int) div time_per_line_micros (running_state 5) = 2
   \<and> line_after (display_current_line config_py [(0, False), (10000, False)] (running_state 5))
       = Some 8
   \<and> missed_after (display_current_line config_py [(0, False), (10000, False)] (running_state 5))
       = Some 2
   \<and> line_after (display_current_line config_py [(0, False), (10000, False)] (running_state 39))
       = Some 0
   \<and> ((39::int) + 2) mod 40 = 1 \<and> ((39::int) + 3) mod 40 = 2"
proof -
  have r: "remaining_time config_py (running_state l) 0 10000 = - 7300" for l
    by (simp add: remaining_time_def running_state_facts py_int_def)
  have b: "\<exists>s'. display_current_line config_py [(0, False), (10000, False)] (running_state l)
               = Some (Inr (s', []))
        \<and> missed_lines_count s' = 2
        \<and> current_line s' = (if 40 \<le> l + 2 + 1 then 0 else l + 2 + 1)" for l
    using display_behind[of "running_state l" "generate_circle_data config_py 28 (0, 255, 255)"
        config_py 0 10000 False False "[]"]
    by (auto simp: r running_state_facts)
  from b[of 5] have 1:
    "line_after (display_current_line config_py [(0, False), (10000, False)] (running_state 5))
       = Some 8"
    "missed_after (display_current_line config_py [(0, False), (10000, False)] (running_state 5))
       = Some 2"
    by (auto simp: line_after_def missed_after_def)
  from b[of 39] have 2:
    "line_after (display_current_line config_py [(0, False), (10000, False)] (running_state 39))
       = Some 0"
    by (auto simp: line_after_def)
  from 1 2 r[of 5] show ?thesis by (simp add: running_state_facts)
qed

lemma wait_until_reaches:
  assumes "\<exists>x\<in>set w. target \<le> py_int (fst x)"
  shows "\<exists>pre tk rest s'. wait_until target w s = Some (rest, s')
     \<and> w = pre @ tk # rest
     \<and> (\<forall>x\<in>set pre. py_int (fst x) < target) \<and> target \<le> py_int (fst tk)
     \<and> current_line s' = current_line s
     \<and> missed_lines_count s' = missed_lines_count s
     \<and> rotation_end_event s' = (rotation_end_event s \<or> (\<exists>x\<in>set (pre @ [tk]). snd x))"
  using assms
proof (induction w arbitrary: s)
  case Nil
  then show ?case by simp
next
  case (Cons a w)
  obtain t p where a: "a = (t, p)" by (cases a)
  show ?case
  proof (cases "py_int t < target")
    case False
    have "wait_until target (a # w) s = Some (w, observe p s)"
      using False by (simp add: a)
    moreover have "a # w = [] @ a # w" by simp
    ultimately show ?thesis
      using False a
      by (intro exI[of _ "[]"] exI[of _ a] exI[of _ w] exI[of _ "observe p s"])
         (simp add: observe_fields)
  next
    case True
    with Cons.prems a have "\<exists>x\<in>set w. target \<le> py_int (fst x)" by auto
    from Cons.IH[OF this, of "observe p s"] obtain pre tk rest s' where
      1: "wait_until target w (observe p s) = Some (rest, s')" and
      2: "w = pre @ tk # rest" and
      3: "\<forall>x\<in>set pre. py_int (fst x) < target" and 4: "target \<le> py_int (fst tk)" and
      5: "current_line s' = current_line (observe p s)"
         "missed_lines_count s' = missed_lines_count (observe p s)" and
      6: "rotation_end_event s' =
            (rotation_end_event (observe p s) \<or> (\<exists>x\<in>set (pre @ [tk]). snd x))"
      by blast
    have w: "wait_until target (a # w) s = Some (rest, s')"
      using True 1 by (simp add: a)
    have e: "a # w = (a # pre) @ tk # rest" using 2 by simp
    have f: "\<forall>x\<in>set (a # pre). py_int (fst x) < target" using 3 True a by simp
    have g: "rotation_end_event s' =
            (rotation_end_event s \<or> (\<exists>x\<in>set ((a # pre) @ [tk]). snd x))"
      using 6 a by (auto simp: observe_fields)
    from w e f 4 5 g show ?thesis
      by (intro exI[of _ "a # pre"] exI[of _ tk] exI[of _ rest] exI[of _ s'])
         (simp add: observe_fields)
  qed
qed

lemma display_waiting:
  assumes "rotation_active s" and "0 < time_per_line_micros s"
    and "current_frame s = Inr frame_data" and "slice_count cfg s \<noteq> 0"
    and "0 < remaining_time cfg s t0 t1"
    and "\<exists>x\<in>set w. py_int t2 + remaining_time cfg s t0 t1 \<le> py_int (fst x)"
  shows "\<exists>s' pre tk rest.
       display_current_line cfg ((t0, p0) # (t1, p1) # (t2, p2) # w) s = Some (Inr (s', rest))
     \<and> w = pre @ tk # rest
     \<and> (\<forall>x\<in>set pre. py_int (fst x) < py_int t2 + remaining_time cfg s t0 t1)
     \<and> py_int t2 + remaining_time cfg s t0 t1 \<le> py_int (fst tk)
     \<and> rotation_end_event s' = (p0 \<or> p1 \<or> p2 \<or> (\<exists>x\<in>set (pre @ [tk]). snd x))
     \<and> current_line s' = (if slice_count cfg s \<le> resync_line s + 1 then 0
                           else resync_line s + 1)"
proof -
  let ?r = "remaining_time cfg s t0 t1"
  from display_current_line_unfold[OF assms(1-4), of p0 p1 t0 t1 "(t2, p2) # w"] obtain s4 where
    a: "current_line s4 = resync_line s" "rotation_end_event s4 = (p0 \<or> p1)" and
    d: "display_current_line cfg ((t0, p0) # (t1, p1) # (t2, p2) # w) s =
          (case wait_or_skip cfg ?r ((t2, p2) # w) s4 of
             None \<Rightarrow> None
           | Some (ticks3, s5) \<Rightarrow> Some (Inr (advance_line (slice_count cfg s) s5, ticks3)))"
    by blast
  have ws: "wait_or_skip cfg ?r ((t2, p2) # w) s4 = wait_until (py_int t2 + ?r) w (observe p2 s4)"
    using assms(5) by (simp add: wait_or_skip_def get_time_micros_def)
  from wait_until_reaches[OF assms(6), of "observe p2 s4"] obtain pre tk rest s5 where
    1: "wait_until (py_int t2 + ?r) w (observe p2 s4) = Some (rest, s5)" and
    2: "w = pre @ tk # rest" and
    3: "\<forall>x\<in>set pre. py_int (fst x) < py_int t2 + ?r" and
    4: "py_int t2 + ?r \<le> py_int (fst tk)" and
    5: "current_line s5 = current_line (observe p2 s4)" and
    6: "rotation_end_event s5 =
          (rotation_end_event (observe p2 s4) \<or> (\<exists>x\<in>set (pre @ [tk]). snd x))"
    by blast
  have e: "display_current_line cfg ((t0, p0) # (t1, p1) # (t2, p2) # w) s =
             Some (Inr (advance_line (slice_count cfg s) s5, rest))"
    by (simp add: d ws 1)
  have f: "rotation_end_event (advance_line (slice_count cfg s) s5)
             = (p0 \<or> p1 \<or> p2 \<or> (\<exists>x\<in>set (pre @ [tk]). snd x))"
    using 6 a(2) by (auto simp: advance_line_fields observe_fields)
  have g: "current_line (advance_line (slice_count cfg s) s5)
             = (if slice_count cfg s \<le> resync_line s + 1 then 0 else resync_line s + 1)"
    using 5 a(1) by (simp add: advance_line_fields observe_fields)
  from e 2 3 4 f g show ?thesis by blast
qed

text \<open>
  In a run of \<^verbatim>\<open>pov_display.py\<close> no clock reading carries a flag. An iteration with a
  positive remaining time then reads the clock up to the target of its wait and returns
  with the flag clear: the flag is not set at any reading of the wait.
\<close>

lemma display_waiting_polled:
  assumes "rotation_active s" and "0 < time_per_line_micros s"
    and "current_frame s = Inr frame_data" and "slice_count cfg s \<noteq> 0"
    and "0 < remaining_time cfg s t0 t1"
    and "\<exists>x\<in>set w. py_int t2 + remaining_time cfg s t0 t1 \<le> py_int (fst x)"
    and "\<forall>x\<in>set w. \<not> snd x"
  shows "\<exists>s' pre tk rest.
       display_current_line cfg ((t0, False) # (t1, False) # (t2, False) # w) s
         = Some (Inr (s', rest))
     \<and> w = pre @ tk # rest
     \<and> (\<forall>x\<in>set pre. py_int (fst x) < py_int t2 + remaining_time cfg s t0 t1)
     \<and> py_int t2 + remaining_time cfg s t0 t1 \<le> py_int (fst tk)
     \<and> \<not> rotation_end_event s'"
proof -
  from display_waiting[OF assms(1-6), of False False False] obtain s' pre tk rest where
    1: "display_current_line cfg ((t0, False) # (t1, False) # (t2, False) # w) s
          = Some (Inr (s', rest))" and
    2: "w = pre @ tk # rest" and
    3: "\<forall>x\<in>set pre. py_int (fst x) < py_int t2 + remaining_time cfg s t0 t1" and
    4: "py_int t2 + remaining_time cfg s t0 t1 \<le> py_int (fst tk)" and
    5: "rotation_end_event s' = (False \<or> False \<or> False \<or> (\<exists>x\<in>set (pre @ [tk]). snd x))"
    by blast
  have "\<forall>x\<in>set (pre @ [tk]). \<not> snd x" using assms(7) 2 by auto
  with 5 have "\<not> rotation_end_event s'" by simp
  with 1 2 3 4 show ?thesis by blast
qed

end
